theory Spec2Isabelle
  imports Main "HOL-Library.List_Lexorder" "HOL-Library.Sublist"
begin

section \<open>Text as sequences of code points\<close>

text \<open>
  A Python \<open>str\<close> is a sequence of Unicode code points, so a string is modelled as a list
  of natural numbers. \<open>cps\<close> turns an ASCII literal into its code points.
\<close>

type_synonym ustr = "nat list"

definition cps :: "string \<Rightarrow> ustr" where
  "cps s = map of_char s"

text \<open>
  Python consults the Unicode database for case mapping and for the regular-expression classes
  \<open>\\w\<close> and \<open>\\d\<close>. The tables are written out here for the code points below 256; for the
  code points from 256 on they are a parameter of the model, so every result below holds for
  whatever these tables contain. (\<open>str.lower\<close> is taken character by character; the
  context rule for a final capital sigma is outside this model.) The whitespace table of
  \<open>str.strip\<close>, \<open>str.isspace\<close> and \<open>\\s\<close> is complete.
\<close>

record unicode =
  lower_hi :: "nat \<Rightarrow> ustr"
  alnum_hi :: "nat \<Rightarrow> bool"
  decimal_hi :: "nat \<Rightarrow> bool"

definition basic_tables :: unicode where
  \<comment> \<open>tables without entries from 256 on, for running the model on concrete text\<close>
  "basic_tables = \<lparr>lower_hi = (\<lambda>c. [c]), alnum_hi = (\<lambda>c. False), decimal_hi = (\<lambda>c. False)\<rparr>"

definition lower_cp :: "unicode \<Rightarrow> nat \<Rightarrow> ustr" where
  "lower_cp U c =
     (if 65 \<le> c \<and> c \<le> 90 then [c + 32]
      else if c < 192 then [c]
      else if c < 256 then (if c = 215 \<or> 223 \<le> c then [c] else [c + 32])
      else lower_hi U c)"

definition lower :: "unicode \<Rightarrow> ustr \<Rightarrow> ustr" where
  \<comment> \<open>\<open>s.lower()\<close>\<close>
  "lower U s = concat (map (lower_cp U) s)"

definition is_space :: "nat \<Rightarrow> bool" where
  "is_space c =
     ((9 \<le> c \<and> c \<le> 13) \<or> (28 \<le> c \<and> c \<le> 32) \<or> c = 133 \<or> c = 160 \<or> c = 5760
      \<or> (8192 \<le> c \<and> c \<le> 8202) \<or> c = 8232 \<or> c = 8233 \<or> c = 8239 \<or> c = 8287
      \<or> c = 12288)"

definition is_digit :: "unicode \<Rightarrow> nat \<Rightarrow> bool" where
  \<comment> \<open>\<open>\\d\<close> in a \<open>str\<close> pattern\<close>
  "is_digit U c = ((48 \<le> c \<and> c \<le> 57) \<or> (256 \<le> c \<and> decimal_hi U c))"

definition is_ascii_digit :: "nat \<Rightarrow> bool" where
  \<comment> \<open>the class \<open>[0-9]\<close>\<close>
  "is_ascii_digit c = (48 \<le> c \<and> c \<le> 57)"

definition is_word :: "unicode \<Rightarrow> nat \<Rightarrow> bool" where
  \<comment> \<open>\<open>\\w\<close> in a \<open>str\<close> pattern: alphanumeric or underscore\<close>
  "is_word U c =
     (c = 95 \<or> (48 \<le> c \<and> c \<le> 57) \<or> (65 \<le> c \<and> c \<le> 90) \<or> (97 \<le> c \<and> c \<le> 122)
      \<or> c = 170 \<or> c = 178 \<or> c = 179 \<or> c = 181 \<or> c = 185 \<or> c = 186
      \<or> c = 188 \<or> c = 189 \<or> c = 190
      \<or> (192 \<le> c \<and> c < 256 \<and> c \<noteq> 215 \<and> c \<noteq> 247)
      \<or> (256 \<le> c \<and> alnum_hi U c))"

definition startswith :: "ustr \<Rightarrow> ustr \<Rightarrow> bool" where
  \<comment> \<open>\<open>s.startswith(p)\<close>\<close>
  "startswith s p = prefix p s"

fun contains :: "ustr \<Rightarrow> ustr \<Rightarrow> bool" where
  \<comment> \<open>\<open>sub in s\<close>\<close>
  "contains [] sub = (sub = [])"
| "contains (c # s) sub = (prefix sub (c # s) \<or> contains s sub)"

definition strip :: "ustr \<Rightarrow> ustr" where
  \<comment> \<open>\<open>s.strip()\<close>\<close>
  "strip s = rev (dropWhile is_space (rev (dropWhile is_space s)))"

fun split_on :: "nat \<Rightarrow> ustr \<Rightarrow> ustr list" where
  \<comment> \<open>\<open>s.split(sep)\<close> for a one-character separator\<close>
  "split_on sep [] = [[]]"
| "split_on sep (c # s) =
     (if c = sep then [] # split_on sep s
      else (case split_on sep s of [] \<Rightarrow> [[c]] | w # ws \<Rightarrow> (c # w) # ws))"

fun join :: "ustr \<Rightarrow> ustr list \<Rightarrow> ustr" where
  \<comment> \<open>\<open>sep.join(parts)\<close>\<close>
  "join sep [] = []"
| "join sep [x] = x"
| "join sep (x # y # ys) = x @ sep @ join sep (y # ys)"

text \<open>
  The word boundary \<open>\\b\<close> of regular expressions lies between two positions of which
  exactly one holds a word character; the outside of the text counts as not a word
  character. \<open>prev\<close> is the character before the position, \<open>None\<close> at the start.
\<close>

fun wordy :: "unicode \<Rightarrow> nat option \<Rightarrow> bool" where
  "wordy U None = False"
| "wordy U (Some c) = is_word U c"

definition boundary :: "unicode \<Rightarrow> nat option \<Rightarrow> ustr \<Rightarrow> bool" where
  \<comment> \<open>\<open>\\b\<close> between the character \<open>prev\<close> and the rest \<open>s\<close> of the text\<close>
  "boundary U prev s = (wordy U prev \<noteq> wordy U (case s of [] \<Rightarrow> None | c # _ \<Rightarrow> Some c))"

text \<open>
  \<open>re.IGNORECASE\<close> for a pattern character from ASCII: the text character matches when both
  fold to the same character, where a capital ASCII letter folds to its small letter and the
  characters that CPython maps onto an ASCII letter fold to it (U+0130 and U+0131 to \<open>i\<close>,
  U+017F to \<open>s\<close>, U+212A to \<open>k\<close>).
\<close>

definition ascii_fold :: "nat \<Rightarrow> nat" where
  "ascii_fold c =
     (if 65 \<le> c \<and> c \<le> 90 then c + 32
      else if c = 304 \<or> c = 305 then 105
      else if c = 383 then 115
      else if c = 8490 then 107
      else c)"

definition ci_eq :: "nat \<Rightarrow> nat \<Rightarrow> bool" where
  "ci_eq p c = (ascii_fold p = ascii_fold c)"

fun ci_prefix :: "ustr \<Rightarrow> ustr \<Rightarrow> ustr option" where
  \<comment> \<open>the pattern matched at the front of the text, ignoring case; the rest of the text\<close>
  "ci_prefix [] s = Some s"
| "ci_prefix (p # ps) [] = None"
| "ci_prefix (p # ps) (c # s) = (if ci_eq p c then ci_prefix ps s else None)"

fun quote_open :: "ustr \<Rightarrow> (nat \<times> ustr) option" where
  \<comment> \<open>the group \<open>(["\<close>\<open>'])\<close>: the quote character and the rest of the text\<close>
  "quote_open [] = None"
| "quote_open (c # s) = (if c = 34 \<or> c = 39 then Some (c, s) else None)"

fun quote_close :: "nat \<Rightarrow> ustr \<Rightarrow> ustr option" where
  \<comment> \<open>the back-reference to the quote character\<close>
  "quote_close q [] = None"
| "quote_close q (c # s) = (if c = q then Some s else None)"

text \<open>
  A greedy \<open>[^>]*\<close> followed by the rest of a pattern: the rest \<open>f\<close> is tried at the
  positions of the run of characters other than \<open>>\<close>, from the right end of the run back to
  its start.
\<close>

fun rightmost :: "(ustr \<Rightarrow> 'a option) \<Rightarrow> ustr \<Rightarrow> 'a option" where
  "rightmost f [] = f []"
| "rightmost f (c # s) =
     (if c = 62 then f (c # s)
      else (case rightmost f s of Some x \<Rightarrow> Some x | None \<Rightarrow> f (c # s)))"

text \<open>\<open>re.search\<close>: the pattern \<open>f\<close> is tried at each position from the left.\<close>

fun leftmost :: "(ustr \<Rightarrow> 'a option) \<Rightarrow> ustr \<Rightarrow> 'a option" where
  "leftmost f [] = f []"
| "leftmost f (c # s) = (case f (c # s) of Some x \<Rightarrow> Some x | None \<Rightarrow> leftmost f s)"

definition is_linebreak :: "nat \<Rightarrow> bool" where
  \<comment> \<open>the line boundaries of \<open>str.splitlines\<close>\<close>
  "is_linebreak c =
     ((10 \<le> c \<and> c \<le> 13) \<or> (28 \<le> c \<and> c \<le> 30) \<or> c = 133 \<or> c = 8232 \<or> c = 8233)"

fun splitlines_from :: "ustr \<Rightarrow> ustr \<Rightarrow> ustr list" where
  \<comment> \<open>\<open>cur\<close> is the line read so far; carriage return plus line feed is one boundary\<close>
  "splitlines_from cur [] = (if cur = [] then [] else [cur])"
| "splitlines_from cur (c # s) =
     (if is_linebreak c then
        (case s of
           [] \<Rightarrow> [cur]
         | d # s' \<Rightarrow> if c = 13 \<and> d = 10 then cur # splitlines_from [] s'
                     else cur # splitlines_from [] (d # s'))
      else splitlines_from (cur @ [c]) s)"

definition splitlines :: "ustr \<Rightarrow> ustr list" where
  \<comment> \<open>\<open>s.splitlines()\<close>\<close>
  "splitlines s = splitlines_from [] s"
section \<open>String-literal decoder (\<open>decode_pdf_string\<close>)\<close>

definition is_octal :: "nat \<Rightarrow> bool" where
  \<comment> \<open>\<open>c in "01234567"\<close> for a single character\<close>
  "is_octal c = (48 \<le> c \<and> c \<le> 55)"

text \<open>
  The inner loop \<open>while j < 3 and i + j < len(data) and data[i + j] in "01234567"\<close>:
  \<open>take_octal k xs\<close> reads at most \<open>k\<close> further octal digits from the front of \<open>xs\<close> and
  returns them with the rest of the input.
\<close>

fun take_octal :: "nat \<Rightarrow> ustr \<Rightarrow> ustr \<times> ustr" where
  "take_octal 0 xs = ([], xs)"
| "take_octal (Suc k) [] = ([], [])"
| "take_octal (Suc k) (x # xs) =
     (if is_octal x then (case take_octal k xs of (ds, r) \<Rightarrow> (x # ds, r)) else ([], x # xs))"

definition int8 :: "ustr \<Rightarrow> nat" where
  \<comment> \<open>\<open>int(oct_digits, 8)\<close> on a string of octal digits\<close>
  "int8 ds = foldl (\<lambda>acc d. 8 * acc + (d - 48)) 0 ds"

lemma take_octal_length: "length (snd (take_octal k xs)) \<le> length xs"
  by (induction k xs rule: take_octal.induct) (auto split: prod.splits)

function decode_pdf_string :: "ustr \<Rightarrow> ustr" where
  "decode_pdf_string [] = []"
| "decode_pdf_string (ch # rest) =
     (if ch = 92 then
        (case rest of
           [] \<Rightarrow> []
         | esc # rest' \<Rightarrow>
             if esc = 40 \<or> esc = 41 \<or> esc = 92 then esc # decode_pdf_string rest'
             else if esc = 110 then 10 # decode_pdf_string rest'
             else if esc = 114 then 13 # decode_pdf_string rest'
             else if esc = 116 then 9 # decode_pdf_string rest'
             else if esc = 98 then 8 # decode_pdf_string rest'
             else if esc = 102 then 12 # decode_pdf_string rest'
             else if is_octal esc then
               int8 (esc # fst (take_octal 2 rest')) # decode_pdf_string (snd (take_octal 2 rest'))
             else esc # decode_pdf_string rest')
      else ch # decode_pdf_string rest)"
  by pat_completeness auto
termination
proof (relation "measure length")
  fix ch :: nat and rest :: ustr and esc :: nat and rest' :: ustr
  assume "rest = esc # rest'"
  have "length (snd (take_octal 2 rest')) \<le> length rest'"
    by (rule take_octal_length)
  then show "(snd (take_octal 2 rest'), ch # rest) \<in> measure length"
    using \<open>rest = esc # rest'\<close> by simp
qed auto

definition trailing_backslashes :: "ustr \<Rightarrow> nat" where
  "trailing_backslashes xs = length (takeWhile (\<lambda>c. c = 92) (rev xs))"

declare decode_pdf_string.simps(2) [simp del]

section \<open>Content-stream tokenizer (the first part of \<open>parse_pdf_pairs\<close>)\<close>

text \<open>
  \<open>re.findall\<close> and \<open>re.finditer\<close>: the pattern \<open>m\<close> is tried from left to right; where it
  matches, its group is collected and the search goes on after the match (one position
  further when the match is empty).
\<close>

function find_all :: "('c list \<Rightarrow> ('g \<times> 'c list) option) \<Rightarrow> 'c list \<Rightarrow> 'g list" where
  "find_all m [] = (case m [] of Some (g, r) \<Rightarrow> [g] | None \<Rightarrow> [])"
| "find_all m (c # s) =
     (case m (c # s) of
        Some (g, r) \<Rightarrow> if length r \<le> length s then g # find_all m r else g # find_all m s
      | None \<Rightarrow> find_all m s)"
  by pat_completeness auto
termination
  by (relation "measure (\<lambda>(m, s). length s)") auto

declare find_all.simps(2) [simp del]

text \<open>
  A lazy \<open>(.*?)\<close> followed by the rest \<open>close\<close> of the pattern: the group grows one character
  at a time, over characters that \<open>.\<close> may match, until \<open>close\<close> matches. The result is the
  group and the text after the match.
\<close>

fun lazy_until :: "('c \<Rightarrow> bool) \<Rightarrow> ('c list \<Rightarrow> 'c list option) \<Rightarrow> 'c list \<Rightarrow> ('c list \<times> 'c list) option" where
  "lazy_until dot close [] = (case close [] of Some r \<Rightarrow> Some ([], r) | None \<Rightarrow> None)"
| "lazy_until dot close (c # s) =
     (case close (c # s) of
        Some r \<Rightarrow> Some ([], r)
      | None \<Rightarrow>
          if dot c
          then (case lazy_until dot close s of Some (g, r) \<Rightarrow> Some (c # g, r) | None \<Rightarrow> None)
          else None)"

fun literal :: "'c list \<Rightarrow> 'c list \<Rightarrow> 'c list option" where
  \<comment> \<open>a literal at the front of the text; the rest of the text\<close>
  "literal [] s = Some s"
| "literal (p # ps) [] = None"
| "literal (p # ps) (c # s) = (if c = p then literal ps s else None)"

type_synonym bytes = string

definition stream_at :: "bytes \<Rightarrow> (bytes \<times> bytes) option" where
  \<comment> \<open>\<open>stream\\r?\\n(.*?)endstream\<close> with \<open>re.DOTALL\<close> at the front of the bytes\<close>
  "stream_at s =
     (case literal ''stream'' s of
        None \<Rightarrow> None
      | Some r \<Rightarrow>
          (case (case literal [CHR 0x0D, CHR 0x0A] r of
                   Some r2 \<Rightarrow> Some r2
                 | None \<Rightarrow> literal [CHR 0x0A] r) of
             None \<Rightarrow> None
           | Some r2 \<Rightarrow> lazy_until (\<lambda>c. True) (literal ''endstream'') r2))"

datatype exn = Exception

definition decompress_or_raw :: "(bytes \<Rightarrow> exn + bytes) \<Rightarrow> bytes \<Rightarrow> exn + bytes" where
  \<comment> \<open>\<open>try: stream_data = zlib.decompress(stream_data)\<close>, \<open>except Exception: pass\<close>\<close>
  "decompress_or_raw inflate stream_data =
     (case inflate stream_data of
        Inr out \<Rightarrow> Inr out
      | Inl e \<Rightarrow> Inr stream_data)"

fun collect_streams :: "(bytes \<Rightarrow> exn + bytes) \<Rightarrow> bytes list \<Rightarrow> exn + ustr list" where
  \<comment> \<open>the loop over the matches; \<open>decode("latin-1", errors="ignore")\<close> maps each byte to its code\<close>
  "collect_streams inflate [] = Inr []"
| "collect_streams inflate (g # gs) =
     (case decompress_or_raw inflate (dropWhile (\<lambda>c. c = CHR 0x0D \<or> c = CHR 0x0A) g) of
        Inl e \<Rightarrow> Inl e
      | Inr stream_data \<Rightarrow>
          (case collect_streams inflate gs of
             Inl e \<Rightarrow> Inl e
           | Inr streams \<Rightarrow> Inr (cps stream_data # streams)))"

definition show_operator :: "ustr \<Rightarrow> ustr \<Rightarrow> ustr \<Rightarrow> ustr option" where
  \<comment> \<open>a closing bracket, \<open>\\s*\<close> and the operator name at the front of the text\<close>
  "show_operator bracket name s =
     (case literal bracket s of
        None \<Rightarrow> None
      | Some r \<Rightarrow> literal name (dropWhile is_space r))"

definition tj_array_at :: "ustr \<Rightarrow> (ustr \<times> ustr) option" where
  \<comment> \<open>\<open>\\[(.*?)\\]\\s*TJ\<close> with \<open>re.DOTALL\<close>\<close>
  "tj_array_at s =
     (case literal (cps ''['') s of
        None \<Rightarrow> None
      | Some r \<Rightarrow> lazy_until (\<lambda>c. True) (show_operator (cps '']'') (cps ''TJ'')) r)"

definition paren_at :: "ustr \<Rightarrow> (ustr \<times> ustr) option" where
  \<comment> \<open>\<open>\\((.*?)\\)\<close>; the dot does not match a line feed\<close>
  "paren_at s =
     (case literal (cps ''('') s of
        None \<Rightarrow> None
      | Some r \<Rightarrow> lazy_until (\<lambda>c. c \<noteq> 10) (literal (cps '')'')) r)"

definition tj_string_at :: "ustr \<Rightarrow> (ustr \<times> ustr) option" where
  \<comment> \<open>\<open>\\((.*?)\\)\\s*Tj\<close>; the dot does not match a line feed\<close>
  "tj_string_at s =
     (case literal (cps ''('') s of
        None \<Rightarrow> None
      | Some r \<Rightarrow> lazy_until (\<lambda>c. c \<noteq> 10) (show_operator (cps '')'') (cps ''Tj'')) r)"

definition stream_texts :: "ustr \<Rightarrow> ustr list" where
  \<comment> \<open>the fragments of one stream: those of the show-array operators, then those of the
      show-string operators; only fragments with \<open>text.strip()\<close> not empty are kept\<close>
  "stream_texts content =
     filter (\<lambda>text. strip text \<noteq> [])
       (map (\<lambda>array. concat (map decode_pdf_string (find_all paren_at array)))
          (find_all tj_array_at content))
     @ filter (\<lambda>text. strip text \<noteq> []) (map decode_pdf_string (find_all tj_string_at content))"

definition content_texts :: "(bytes \<Rightarrow> exn + bytes) \<Rightarrow> bytes \<Rightarrow> exn + ustr list" where
  \<comment> \<open>lines 309 to 329: \<open>texts\<close>, or the exception that leaves the function\<close>
  "content_texts inflate raw =
     (case collect_streams inflate (find_all stream_at raw) of
        Inl e \<Rightarrow> Inl e
      | Inr streams \<Rightarrow> Inr (concat (map stream_texts streams)))"

definition text_lines :: "ustr list \<Rightarrow> ustr list" where
  \<comment> \<open>lines 331 to 336: the fragments split at line feeds, trimmed, the empty lines dropped\<close>
  "text_lines texts =
     filter (\<lambda>trimmed. trimmed \<noteq> []) (map strip (concat (map (split_on 10) texts)))"

section \<open>Title/URL pairer (the line loop of \<open>parse_pdf_pairs\<close>)\<close>

text \<open>
  \<open>re.match(r"\\d{1,2}/\\d{1,2}/\\d{2}", line)\<close> and \<open>re.match(r"\\d{1,2}:\\d{2}", line)\<close> match a
  prefix of the line. \<open>digits_1_2 U s\<close> lists the remainders of \<open>s\<close> after \<open>\\d{1,2}\<close>, the
  greedy choice first.
\<close>

fun digits_1_2 :: "unicode \<Rightarrow> ustr \<Rightarrow> ustr list" where
  "digits_1_2 U (a # b # r) =
     (if is_digit U a then (if is_digit U b then [r, b # r] else [b # r]) else [])"
| "digits_1_2 U [a] = (if is_digit U a then [[]] else [])"
| "digits_1_2 U [] = []"

fun two_digits :: "unicode \<Rightarrow> ustr \<Rightarrow> bool" where
  "two_digits U (a # b # r) = (is_digit U a \<and> is_digit U b)"
| "two_digits U _ = False"

fun after_char :: "nat \<Rightarrow> ustr \<Rightarrow> ustr option" where
  "after_char c [] = None"
| "after_char c (x # r) = (if x = c then Some r else None)"

definition is_date_line :: "unicode \<Rightarrow> ustr \<Rightarrow> bool" where
  "is_date_line U line =
     (\<exists>r1 \<in> set (digits_1_2 U line).
        case after_char 47 r1 of None \<Rightarrow> False
        | Some r2 \<Rightarrow> (\<exists>r3 \<in> set (digits_1_2 U r2).
            case after_char 47 r3 of None \<Rightarrow> False | Some r4 \<Rightarrow> two_digits U r4))"

definition is_time_line :: "unicode \<Rightarrow> ustr \<Rightarrow> bool" where
  "is_time_line U line =
     (\<exists>r1 \<in> set (digits_1_2 U line).
        case after_char 58 r1 of None \<Rightarrow> False | Some r2 \<Rightarrow> two_digits U r2)"

definition is_footer_label :: "unicode \<Rightarrow> ustr \<Rightarrow> bool" where
  \<comment> \<open>\<open>lower in {"recipies", "recipes"} or lower.startswith("page ")\<close>\<close>
  "is_footer_label U line =
     (lower U line = cps ''recipies'' \<or> lower U line = cps ''recipes''
      \<or> startswith (lower U line) (cps ''page ''))"

text \<open>
  The inner loop that joins the continuation lines of a URL: it returns the URL and the lines
  from index \<open>j\<close> on, where the outer loop resumes.
\<close>

fun url_accumulate :: "unicode \<Rightarrow> ustr \<Rightarrow> ustr list \<Rightarrow> ustr \<times> ustr list" where
  "url_accumulate U url [] = (url, [])"
| "url_accumulate U url (nxt # rest) =
     (if startswith nxt (cps ''https://'') then (url, nxt # rest)
      else if 32 \<in> set nxt then (url, nxt # rest)
      else if startswith (lower U nxt) (cps ''page '') then (url, nxt # rest)
      else if is_date_line U nxt \<or> is_time_line U nxt then (url, nxt # rest)
      else url_accumulate U (url @ nxt) rest)"

lemma url_accumulate_length: "length (snd (url_accumulate U url ls)) \<le> length ls"
  by (induction ls arbitrary: url) (auto simp: le_SucI)

text \<open>
  The outer loop. The pending title is \<open>None\<close> or \<open>Some line\<close>; \<open>if title and url\<close> asks for a
  title that is set and not the empty string, and a non-empty URL. The pairs are returned in
  the order in which the source appends them.
\<close>

function pairs_loop :: "unicode \<Rightarrow> ustr option \<Rightarrow> ustr list \<Rightarrow> (ustr \<times> ustr) list" where
  "pairs_loop U title [] = []"
| "pairs_loop U title (line # rest) =
     (if is_footer_label U line then pairs_loop U None rest
      else if is_date_line U line \<or> is_time_line U line then pairs_loop U title rest
      else if startswith line (cps ''https://'') then
        (case title of
           Some t \<Rightarrow>
             if t \<noteq> [] \<and> fst (url_accumulate U line rest) \<noteq> []
             then (t, fst (url_accumulate U line rest))
                    # pairs_loop U None (snd (url_accumulate U line rest))
             else pairs_loop U title (snd (url_accumulate U line rest))
         | None \<Rightarrow> pairs_loop U title (snd (url_accumulate U line rest)))
      else pairs_loop U (Some line) rest)"
  by pat_completeness auto
termination
  by (relation "measure (\<lambda>(U, title, ls). length ls)")
    (auto simp: url_accumulate_length le_imp_less_Suc)

declare pairs_loop.simps(2) [simp del]

definition pair_lines :: "unicode \<Rightarrow> ustr list \<Rightarrow> (ustr \<times> ustr) list" where
  \<comment> \<open>the loop started as the source starts it: \<open>title = None\<close>, \<open>i = 0\<close>\<close>
  "pair_lines U lines = pairs_loop U None lines"

definition is_noise_line :: "unicode \<Rightarrow> ustr \<Rightarrow> bool" where
  \<comment> \<open>the lines the outer loop skips: footer label, \<open>page N\<close>, date pattern, time pattern\<close>
  "is_noise_line U line = (is_footer_label U line \<or> is_date_line U line \<or> is_time_line U line)"

definition parse_pdf_pairs ::
  "unicode \<Rightarrow> (bytes \<Rightarrow> exn + bytes) \<Rightarrow> bytes \<Rightarrow> exn + (ustr \<times> ustr) list" where
  \<comment> \<open>the whole function on the bytes of the file\<close>
  "parse_pdf_pairs U inflate raw =
     (case content_texts inflate raw of
        Inl e \<Rightarrow> Inl e
      | Inr texts \<Rightarrow> Inr (pair_lines U (text_lines texts)))"

section \<open>Free-text recipe segmenter\<close>

definition INGREDIENT_KEYWORDS :: "ustr list" where
  "INGREDIENT_KEYWORDS = map cps
     [''you need'', ''ingredients'', ''ingredient list'', ''what you need'',
      [CHR ''h'', CHR ''e'', CHR ''r'', CHR ''e'', CHR 0x27, CHR ''s'', CHR '' '', CHR ''w'',
       CHR ''h'', CHR ''a'', CHR ''t'', CHR '' '', CHR ''y'', CHR ''o'', CHR ''u'', CHR '' '',
       CHR ''n'', CHR ''e'', CHR ''e'', CHR ''d''],
      ''you will need'', ''shopping list'', ''for the salad'', ''for the dressing'',
      ''for the sauce'', ''for the marinade'']"

definition INGREDIENT_STOPWORDS :: "ustr list" where
  "INGREDIENT_STOPWORDS = map cps
     [''how'', ''method'', ''instructions'', ''directions'', ''steps'', ''prep'', ''preparation'',
      ''makes'', ''serves'', ''macros'', ''calories'', ''enjoy'', ''note'', ''notes'', ''tip'',
      ''tips'', ''storage'', ''cook'', ''bake'', ''fry'', ''to make'']"

definition INSTRUCTION_KEYWORDS :: "ustr list" where
  "INSTRUCTION_KEYWORDS = map cps
     [''how'', ''instructions'', ''method'', ''directions'', ''steps'', ''to make'', ''prep'',
      ''preparation'', ''cook'', ''bake'', ''finish'']"

definition INSTRUCTION_TERMINATORS :: "ustr list" where
  "INSTRUCTION_TERMINATORS = map cps
     [''serves'', ''macros'', ''calories'', ''enjoy'', ''notes'', ''note'', ''tag'', ''share'']"

definition MEASUREMENT_TOKENS :: "ustr list" where
  "MEASUREMENT_TOKENS = map cps
     [''cup'', ''cups'', ''tsp'', ''teaspoon'', ''teaspoons'', ''tbsp'', ''tablespoon'',
      ''tablespoons'', ''g'', ''gram'', ''grams'', ''kg'', ''ml'', ''l'', ''oz'', ''lb'', ''lbs'',
      ''clove'', ''cloves'', ''slice'', ''slices'', ''sprig'', ''sprigs'', ''bunch'', ''handful'',
      ''packet'', ''pack'', ''package'', ''can'', ''tin'', ''fillet'', ''fillets'', ''stick'',
      ''sticks'']"

definition SUBHEADING_PREFIXES :: "ustr list" where
  \<comment> \<open>the tuple of prefixes written inside \<open>extract_ingredients_section\<close>\<close>
  "SUBHEADING_PREFIXES = map cps
     [''optional toppings'', ''optional:'', ''toppings'', ''garnish'', ''for the'']"

text \<open>
  \<open>MEASUREMENT_PATTERN\<close> is \<open>\\b(cup|cups|...)\\b\<close>; \<open>search\<close> succeeds when some token stands
  between word boundaries at some position.
\<close>

definition token_at :: "unicode \<Rightarrow> nat option \<Rightarrow> ustr \<Rightarrow> ustr \<Rightarrow> bool" where
  "token_at U prev s tok =
     (boundary U prev s \<and> prefix tok s
      \<and> boundary U (if tok = [] then prev else Some (last tok)) (drop (length tok) s))"

fun measurement_search :: "unicode \<Rightarrow> nat option \<Rightarrow> ustr \<Rightarrow> bool" where
  "measurement_search U prev [] = (\<exists>tok \<in> set MEASUREMENT_TOKENS. token_at U prev [] tok)"
| "measurement_search U prev (c # s) =
     ((\<exists>tok \<in> set MEASUREMENT_TOKENS. token_at U prev (c # s) tok)
      \<or> measurement_search U (Some c) s)"

definition numbered_line :: "ustr \<Rightarrow> bool" where
  \<comment> \<open>\<open>re.match(r"^[0-9]+[).]", line)\<close>\<close>
  "numbered_line line =
     (takeWhile is_ascii_digit line \<noteq> []
      \<and> (case dropWhile is_ascii_digit line of [] \<Rightarrow> False | c # _ \<Rightarrow> c = 41 \<or> c = 46))"

text \<open>
  \<open>(.+)$\<close> without \<open>DOTALL\<close>: a non-empty run of characters other than line feed that reaches
  the end of the string or the line feed that ends it. The result is the group.
\<close>

definition dot_plus_end :: "ustr \<Rightarrow> ustr option" where
  "dot_plus_end s =
     (let x = takeWhile (\<lambda>c. c \<noteq> 10) s; r = dropWhile (\<lambda>c. c \<noteq> 10) s
      in if x \<noteq> [] \<and> (r = [] \<or> r = [10]) then Some x else None)"

text \<open>
  \<open>\\s*(.+)$\<close>: the greedy \<open>\\s*\<close> first takes \<open>j\<close> whitespace characters and gives them back
  one by one until the rest matches.
\<close>

fun spaces_then_rest :: "nat \<Rightarrow> ustr \<Rightarrow> ustr option" where
  "spaces_then_rest 0 s = dot_plus_end s"
| "spaces_then_rest (Suc j) s =
     (case dot_plus_end (drop (Suc j) s) of
        Some x \<Rightarrow> Some x
      | None \<Rightarrow> spaces_then_rest j s)"

definition bullet_match :: "ustr \<Rightarrow> ustr option" where
  \<comment> \<open>group 1 of the bullet pattern: a hyphen, U+2022, U+2013 or U+2014, then \<open>\\s*(.+)$\<close>\<close>
  "bullet_match line =
     (case line of
        [] \<Rightarrow> None
      | c # s \<Rightarrow>
          if c = 45 \<or> c = 8226 \<or> c = 8211 \<or> c = 8212
          then spaces_then_rest (length (takeWhile is_space s)) s
          else None)"

definition find_start :: "unicode \<Rightarrow> ustr list \<Rightarrow> nat" where
  \<comment> \<open>the first \<open>for\<close> loop: one past the first line that contains an ingredient keyword, else 0\<close>
  "find_start U lines =
     (case find (\<lambda>(idx, line). \<exists>keyword \<in> set INGREDIENT_KEYWORDS. contains (lower U line) keyword)
             (enumerate 0 lines) of
        None \<Rightarrow> 0
      | Some (idx, line) \<Rightarrow> idx + 1)"

text \<open>
  The \<open>while i < len(lines)\<close> loop; \<open>ls\<close> are the lines from index \<open>i\<close> on. It returns the
  ingredients and the index at which it stopped.
\<close>

fun ingredients_loop :: "unicode \<Rightarrow> ustr list \<Rightarrow> nat \<Rightarrow> ustr list \<Rightarrow> ustr list \<times> nat" where
  "ingredients_loop U [] i ingredients = (ingredients, i)"
| "ingredients_loop U (line # ls) i ingredients =
     (if startswith (lower U line) (cps ''#'') \<or> startswith (lower U line) (cps ''http'') then
        (if ingredients \<noteq> [] then (ingredients, i) else ingredients_loop U ls (i + 1) ingredients)
      else if \<exists>stop \<in> set INGREDIENT_STOPWORDS.
                startswith (lower U line) stop \<or> lower U line = stop then
        (if ingredients \<noteq> [] then (ingredients, i) else ingredients_loop U ls (i + 1) ingredients)
      else if numbered_line line \<and> ingredients \<noteq> [] then (ingredients, i)
      else
        (case bullet_match line of
           Some g \<Rightarrow> ingredients_loop U ls (i + 1) (ingredients @ [strip g])
         | None \<Rightarrow>
             if \<exists>p \<in> set SUBHEADING_PREFIXES. startswith (lower U line) p then
               ingredients_loop U ls (i + 1) (ingredients @ [line])
             else if measurement_search U None (lower U line) \<or> (\<exists>c \<in> set line. is_digit U c) then
               ingredients_loop U ls (i + 1) (ingredients @ [line])
             else if ingredients \<noteq> [] then (ingredients, i)
             else ingredients_loop U ls (i + 1) ingredients))"

declare ingredients_loop.simps(2) [simp del]

text \<open>
  \<open>re.search(r"(ingredients[^:]*:)(.+)", text, re.IGNORECASE | re.DOTALL)\<close>: at the leftmost
  position where \<open>ingredients\<close> matches and the next colon has something after it, group 2 is
  all the text after that colon.
\<close>

fun fallback_search :: "ustr \<Rightarrow> ustr option" where
  "fallback_search [] = None"
| "fallback_search (c # s) =
     (case ci_prefix (cps ''ingredients'') (c # s) of
        Some r \<Rightarrow>
          (case dropWhile (\<lambda>x. x \<noteq> 58) r of
             _ # g # gs \<Rightarrow> Some (g # gs)
           | _ \<Rightarrow> fallback_search s)
      | None \<Rightarrow> fallback_search s)"

definition strip_chars :: "nat list \<Rightarrow> ustr \<Rightarrow> ustr" where
  \<comment> \<open>\<open>s.strip(chars)\<close>\<close>
  "strip_chars chars s =
     rev (dropWhile (\<lambda>c. c \<in> set chars) (rev (dropWhile (\<lambda>c. c \<in> set chars) s)))"

definition fallback_tokens :: "ustr list \<Rightarrow> ustr list" where
  "fallback_tokens lines =
     (case fallback_search (join [10] lines) of
        None \<Rightarrow> []
      | Some g \<Rightarrow>
          filter (\<lambda>t. t \<noteq> [])
            (map (strip_chars (cps '' .;-'')) (split_on 44 (case split_on 10 g of [] \<Rightarrow> [] | r # _ \<Rightarrow> r))))"

definition extract_ingredients_section :: "unicode \<Rightarrow> ustr list \<Rightarrow> ustr list \<times> nat" where
  "extract_ingredients_section U lines =
     (let start_idx = find_start U lines;
          (ingredients, i) = ingredients_loop U (drop start_idx lines) start_idx []
      in if ingredients \<noteq> [] then (ingredients, i)
         else if fallback_tokens lines \<noteq> [] then (fallback_tokens lines, start_idx)
         else ([], start_idx))"

text \<open>
  \<open>prepare_lines\<close>: carriage returns become line feeds, the text is split at line feeds, each
  line is stripped, empty lines are dropped and a line equal to the line kept last is dropped.
\<close>

fun keep_lines :: "ustr list \<Rightarrow> ustr list \<Rightarrow> ustr list" where
  \<comment> \<open>the \<open>for line in raw_lines\<close> loop; the second argument is \<open>lines\<close>\<close>
  "keep_lines [] lines = lines"
| "keep_lines (line # raw) lines =
     (if line = [] then keep_lines raw lines
      else if lines \<noteq> [] \<and> last lines = line then keep_lines raw lines
      else keep_lines raw (lines @ [line]))"

definition prepare_lines :: "ustr \<Rightarrow> ustr list" where
  "prepare_lines description =
     keep_lines (map strip (split_on 10 (map (\<lambda>c. if c = 13 then 10 else c) description))) []"

text \<open>
  The pattern \<open>^(?:step\\s*)?(\\d+)[)\\.:\\-]?\\s*(.+)$\<close> with \<open>re.IGNORECASE\<close>, written as the
  choices of the backtracking matcher in the order in which it tries them; the result is
  group 2 of the first choice that matches.
\<close>

definition after_separator :: "ustr \<Rightarrow> ustr option" where
  \<comment> \<open>\<open>[)\\.:\\-]?\\s*(.+)$\<close>: with the separator first, then without it\<close>
  "after_separator s =
     (case s of
        [] \<Rightarrow> None
      | c # r \<Rightarrow>
          (case (if c = 41 \<or> c = 46 \<or> c = 58 \<or> c = 45
                 then spaces_then_rest (length (takeWhile is_space r)) r else None) of
             Some g \<Rightarrow> Some g
           | None \<Rightarrow> spaces_then_rest (length (takeWhile is_space s)) s))"

fun digits_then_rest :: "nat \<Rightarrow> ustr \<Rightarrow> ustr option" where
  \<comment> \<open>\<open>(\\d+)\<close> taking \<open>d\<close> digits, then fewer, but at least one\<close>
  "digits_then_rest 0 s = None"
| "digits_then_rest (Suc d) s =
     (case after_separator (drop (Suc d) s) of
        Some g \<Rightarrow> Some g
      | None \<Rightarrow> digits_then_rest d s)"

definition numbered_rest :: "unicode \<Rightarrow> ustr \<Rightarrow> ustr option" where
  "numbered_rest U s = digits_then_rest (length (takeWhile (is_digit U) s)) s"

fun step_spaces :: "unicode \<Rightarrow> nat \<Rightarrow> ustr \<Rightarrow> ustr option" where
  \<comment> \<open>after \<open>step\<close>: \<open>\\s*\<close> taking \<open>j\<close> characters, then fewer\<close>
  "step_spaces U 0 s = numbered_rest U s"
| "step_spaces U (Suc j) s =
     (case numbered_rest U (drop (Suc j) s) of
        Some g \<Rightarrow> Some g
      | None \<Rightarrow> step_spaces U j s)"

definition numeric_match :: "unicode \<Rightarrow> ustr \<Rightarrow> ustr option" where
  "numeric_match U line =
     (case (case ci_prefix (cps ''step'') line of
              Some r \<Rightarrow> step_spaces U (length (takeWhile is_space r)) r
            | None \<Rightarrow> None) of
        Some g \<Rightarrow> Some g
      | None \<Rightarrow> numbered_rest U line)"

text \<open>The \<open>while\<close> loop of \<open>extract_steps_section\<close>; \<open>ls\<close> are the lines from index \<open>i\<close> on.\<close>

fun steps_loop :: "unicode \<Rightarrow> ustr list \<Rightarrow> ustr list \<Rightarrow> ustr list" where
  "steps_loop U [] steps = steps"
| "steps_loop U (line # ls) steps =
     (if startswith (lower U line) (cps ''#'') \<or> startswith (lower U line) (cps ''http'') then steps
      else if (\<exists>term \<in> set INSTRUCTION_TERMINATORS. contains (lower U line) term) \<and> steps \<noteq> []
      then steps
      else if (\<exists>keyword \<in> set INSTRUCTION_KEYWORDS. contains (lower U line) keyword)
              \<and> \<not> numbered_line line
      then steps_loop U ls steps
      else
        (case numeric_match U line of
           Some g \<Rightarrow> steps_loop U ls (steps @ [strip g])
         | None \<Rightarrow>
             (case (if steps \<noteq> [] then bullet_match line else None) of
                Some g \<Rightarrow> steps_loop U ls (steps @ [strip g])
              | None \<Rightarrow>
                  if steps \<noteq> []
                  then steps_loop U ls (butlast steps @ [strip (last steps @ [32] @ line)])
                  else steps_loop U ls steps)))"

declare steps_loop.simps(2) [simp del]

definition extract_steps_section :: "unicode \<Rightarrow> ustr list \<Rightarrow> nat \<Rightarrow> ustr list" where
  "extract_steps_section U lines start_idx = steps_loop U (drop start_idx lines) []"

definition extract_recipe_content :: "unicode \<Rightarrow> ustr \<Rightarrow> ustr list \<times> ustr list" where
  "extract_recipe_content U description =
     (let lines = prepare_lines description;
          (ingredients, idx) = extract_ingredients_section U lines;
          steps = extract_steps_section U lines idx
      in (ingredients, steps))"

section \<open>Tag and meal-type classifier\<close>

definition MEAT_KEYWORDS :: "ustr list" where
  "MEAT_KEYWORDS = map cps
     [''beef'', ''chicken'', ''turkey'', ''pork'', ''lamb'', ''mutton'', ''bacon'', ''ham'',
      ''sausage'', ''duck'', ''veal'', ''prosciutto'', ''salami'', ''anchovy'', ''anchovies'',
      ''tuna'', ''salmon'', ''cod'', ''trout'', ''shrimp'', ''prawn'', ''prawns'', ''lobster'',
      ''crab'', ''clam'', ''clams'', ''mussel'', ''mussels'', ''octopus'', ''squid'',
      ''calamari'', ''fish'', ''seafood'', ''oxtail'', ''short rib'', ''short ribs'', ''steak'']"

definition BREAKFAST_KEYWORDS :: "ustr list" where
  "BREAKFAST_KEYWORDS = map cps
     [''breakfast'', ''brunch'', ''pancake'', ''oat'', ''granola'', ''smoothie bowl'',
      ''overnight oats'', ''toast'', ''waffle'', ''frittata'', ''egg muffin'', ''omelette'',
      ''bagel'']"

definition DESSERT_KEYWORDS :: "ustr list" where
  "DESSERT_KEYWORDS = map cps
     [''cake'', ''brownie'', ''dessert'', ''cookie'', ''tart'', ''pie'', ''ice cream'',
      ''pudding'', ''cheesecake'', ''cupcake'', ''mousse'', ''custard'', ''sorbet'',
      ''lava cake'', ''sweet roll'', ''pastry'', ''crepe'', ''donut'', ''banana bread'']"

definition DRINK_KEYWORDS :: "ustr list" where
  "DRINK_KEYWORDS = map cps
     [''sangria'', ''cocktail'', ''mocktail'', ''smoothie'', ''latte'', ''tea'', ''lemonade'',
      ''juice'', ''spritz'', ''punch'', ''margarita'', ''mojito'', ''paloma'']"

definition MEAL_KEYWORDS :: "(ustr \<times> ustr list) list" where
  "MEAL_KEYWORDS =
     [(cps ''lunch'', map cps [''lunch'', ''snack'', ''nibbles'', ''bites'']),
      (cps ''dinner'', map cps [''dinner'']),
      (cps ''brunch'', map cps [''brunch''])]"

definition COURSE_KEYWORDS :: "(ustr \<times> ustr list) list" where
  "COURSE_KEYWORDS =
     [(cps ''soup'', map cps [''soup'', ''ramen'', ''pho'', ''bisque'']),
      (cps ''salad'', map cps [''salad'']),
      (cps ''pasta'', map cps [''pasta'', ''spaghetti'', ''lasagna'', ''tagliatelle'', ''penne'',
         ''pappardelle'', ''mac'']),
      (cps ''noodles'', map cps [''noodle'', ''udon'', ''lo mein'', ''pad thai'', ''yakisoba'']),
      (cps ''stew'', map cps [''stew'', ''braise'']),
      (cps ''curry'', map cps [''curry'']),
      (cps ''stir-fry'', map cps [''stir fry'', ''stir-fry'']),
      (cps ''bowl'', map cps [''bowl'']),
      (cps ''sandwich'', map cps [''sandwich'', ''wrap'', ''burger'']),
      (cps ''rice'', map cps [''rice'', ''risotto'', ''paella'', ''pilaf'']),
      (cps ''pizza'', map cps [''pizza'', ''flatbread'']),
      (cps ''tacos'', map cps [''taco'']),
      (cps ''appetizer'', map cps [''appetizer'', ''starter'', ''bites''])]"

text \<open>
  The regular expression \<open>\\b\<close>\<^emph>\<open>keyword\<close>\<open>s?\\b\<close>, searched in the text.
\<close>

definition keyword_at :: "unicode \<Rightarrow> nat option \<Rightarrow> ustr \<Rightarrow> ustr \<Rightarrow> bool" where
  \<comment> \<open>the pattern matches at this position: with the optional \<open>s\<close>, or without it\<close>
  "keyword_at U prev s kw =
     (boundary U prev s \<and> prefix kw s \<and>
      (let r = drop (length kw) s;
           left = (if kw = [] then prev else Some (last kw))
       in (case r of [] \<Rightarrow> False | c # r' \<Rightarrow> c = 115 \<and> boundary U (Some 115) r')
          \<or> boundary U left r))"

fun keyword_search :: "unicode \<Rightarrow> nat option \<Rightarrow> ustr \<Rightarrow> ustr \<Rightarrow> bool" where
  \<comment> \<open>\<open>re.search\<close>: some position of the text matches\<close>
  "keyword_search U prev [] kw = keyword_at U prev [] kw"
| "keyword_search U prev (c # s) kw =
     (keyword_at U prev (c # s) kw \<or> keyword_search U (Some c) s kw)"

definition keyword_in_text :: "unicode \<Rightarrow> ustr \<Rightarrow> ustr \<Rightarrow> bool" where
  "keyword_in_text U text keyword =
     (if 32 \<in> set keyword then contains text keyword
      else keyword_search U None text keyword)"

definition any_keyword :: "unicode \<Rightarrow> ustr \<Rightarrow> ustr list \<Rightarrow> bool" where
  \<comment> \<open>\<open>any(keyword_in_text(text, keyword) for keyword in keywords)\<close>\<close>
  "any_keyword U text keywords = (\<exists>k \<in> set keywords. keyword_in_text U text k)"

definition blob :: "unicode \<Rightarrow> ustr \<Rightarrow> ustr list \<Rightarrow> ustr" where
  \<comment> \<open>\<open>f"{title} {' '.join(ingredients)}".lower()\<close>\<close>
  "blob U title ingredients = lower U (title @ [32] @ join [32] ingredients)"

definition tagged :: "unicode \<Rightarrow> ustr \<Rightarrow> (ustr \<times> ustr list) list \<Rightarrow> ustr list" where
  \<comment> \<open>the tags of a keyword table of which some keyword occurs in the text\<close>
  "tagged U text table = map fst (filter (\<lambda>(tag, keywords). any_keyword U text keywords) table)"

text \<open>
  \<open>infer_tags\<close> collects the tags in a set and returns \<open>sorted(tags)\<close>; here they are collected
  in a list, and duplicates are removed before sorting.
\<close>

definition infer_tags :: "unicode \<Rightarrow> ustr \<Rightarrow> ustr list \<Rightarrow> ustr list" where
  "infer_tags U title ingredients =
     (let text = blob U title ingredients;
          tags =
            tagged U text MEAL_KEYWORDS
            @ (if any_keyword U text BREAKFAST_KEYWORDS then [cps ''breakfast''] else [])
            @ (if any_keyword U text DESSERT_KEYWORDS then [cps ''dessert''] else [])
            @ (if any_keyword U text DRINK_KEYWORDS then [cps ''drink''] else [])
            @ tagged U text COURSE_KEYWORDS
            @ (if any_keyword U text (map cps [''roast'', ''sheet pan'', ''tray bake'', ''roasted''])
               then [cps ''roast''] else [])
            @ (if any_keyword U text (map cps [''grill'', ''grilled'', ''bbq'', ''barbecue''])
               then [cps ''grill''] else [])
            @ (if \<not> any_keyword U text MEAT_KEYWORDS then [cps ''vegetarian''] else [])
            @ (if keyword_in_text U text (cps ''vegan'') then [cps ''vegan''] else [])
      in sort (remdups tags))"

definition explicit_meal_types :: "unicode \<Rightarrow> ustr \<Rightarrow> ustr list \<Rightarrow> ustr list" where
  \<comment> \<open>\<open>meal_types\<close> as it stands before the test \<open>if not meal_types\<close>\<close>
  "explicit_meal_types U text lowered_tags =
     (if cps ''breakfast'' \<in> set lowered_tags \<or> keyword_in_text U text (cps ''breakfast'')
      then [cps ''breakfast''] else [])
     @ (if cps ''brunch'' \<in> set lowered_tags \<or> keyword_in_text U text (cps ''brunch'')
        then [cps ''brunch''] else [])
     @ (if cps ''dessert'' \<in> set lowered_tags \<or> keyword_in_text U text (cps ''dessert'')
        then [cps ''dessert''] else [])
     @ tagged U text MEAL_KEYWORDS"

definition infer_meal_types :: "unicode \<Rightarrow> ustr \<Rightarrow> ustr list \<Rightarrow> ustr list \<Rightarrow> ustr list" where
  "infer_meal_types U title ingredients tags =
     (let text = blob U title ingredients;
          lowered_tags = map (lower U) tags;
          meal_types = explicit_meal_types U text lowered_tags
      in sort (remdups
           (if meal_types = [] then
              (if cps ''salad'' \<in> set lowered_tags \<or> keyword_in_text U text (cps ''salad'')
               then [cps ''lunch'']
               else if cps ''soup'' \<in> set lowered_tags \<or> keyword_in_text U text (cps ''soup'')
               then [cps ''dinner'']
               else if cps ''dessert'' \<in> set lowered_tags then [cps ''dessert'']
               else [cps ''dinner''])
            else meal_types)))"

definition word_boundary_match :: "unicode \<Rightarrow> ustr \<Rightarrow> ustr \<Rightarrow> bool" where
  \<comment> \<open>the word-boundary test with optional plural \<open>s\<close>, applied to any keyword\<close>
  "word_boundary_match U text keyword = keyword_search U None text keyword"

section \<open>Record assembler (\<open>main\<close> of the dataset generator)\<close>

text \<open>
  What the program takes from outside: \<open>subprocess.run(["curl", "-sL", url], ...)\<close>, which
  raises (for example \<open>ValueError\<close> for an argument with an embedded null byte) or returns
  the return code and the standard output; \<open>bytes.decode("utf-8", errors="ignore")\<close>; and the
  library functions \<open>html.unescape\<close>, \<open>unicodedata.normalize("NFKD", _)\<close>,
  \<open>urlparse(url).path\<close> (\<open>None\<close> when \<open>urlparse\<close> raises),
  \<open>urlunparse(parsed._replace(query="", fragment=""))\<close> and \<open>urljoin\<close>.
\<close>

record library =
  curl :: "ustr \<Rightarrow> exn + int \<times> bytes"
  utf8_decode :: "bytes \<Rightarrow> ustr"
  unescape :: "ustr \<Rightarrow> ustr"
  nfkd :: "ustr \<Rightarrow> ustr"
  url_path :: "ustr \<Rightarrow> ustr option"
  url_without_query :: "ustr \<Rightarrow> ustr"
  urljoin :: "ustr \<Rightarrow> ustr \<Rightarrow> ustr"

definition fetch_html :: "library \<Rightarrow> ustr \<Rightarrow> exn + ustr option" where
  \<comment> \<open>an exception of \<open>subprocess.run\<close> is not caught; a return code other than 0 gives \<open>None\<close>\<close>
  "fetch_html L url =
     (case curl L url of
        Inl e \<Rightarrow> Inl e
      | Inr (returncode, stdout) \<Rightarrow>
          if returncode \<noteq> 0 then Inr None else Inr (Some (utf8_decode L stdout)))"

definition plain_library :: library where
  \<comment> \<open>a library whose fetch always fails and whose functions change nothing, for concrete runs\<close>
  "plain_library =
     \<lparr>curl = (\<lambda>url. Inr (1, [])), utf8_decode = cps, unescape = (\<lambda>s. s), nfkd = (\<lambda>s. s),
      url_path = (\<lambda>url. None), url_without_query = (\<lambda>url. url),
      urljoin = (\<lambda>base ref. ref)\<rparr>"

definition test_page :: bytes where
  \<comment> \<open>a page with the description \<open>Hello\<close> and the image \<open>i.png\<close>, for concrete runs\<close>
  "test_page =
     ''<meta property='' @ [CHR 0x22] @ ''og:description'' @ [CHR 0x22] @ '' content=''
     @ [CHR 0x22] @ ''Hello'' @ [CHR 0x22] @ ''>''
     @ ''<meta property='' @ [CHR 0x22] @ ''og:image'' @ [CHR 0x22] @ '' content=''
     @ [CHR 0x22] @ ''i.png'' @ [CHR 0x22] @ ''>''"

definition test_library :: library where
  \<comment> \<open>a library whose \<open>curl\<close> raises on a URL with a null character, as \<open>subprocess.run\<close>
      does, and returns \<open>test_page\<close> for every other URL, for concrete runs\<close>
  "test_library =
     \<lparr>curl = (\<lambda>url. if 0 \<in> set url then Inl Exception else Inr (0, test_page)),
      utf8_decode = cps, unescape = (\<lambda>s. s), nfkd = (\<lambda>s. s),
      url_path = (\<lambda>url. None), url_without_query = (\<lambda>url. url),
      urljoin = (\<lambda>base ref. ref)\<rparr>"

text \<open>
  \<open>extract_meta_value\<close> searches
  \<open><meta\\s+[^>]*property=(["'])\<close>\<^emph>\<open>property\<close>\<open>\\1[^>]*content=(["'])(.*?)\\2\<close> with
  \<open>re.IGNORECASE | re.DOTALL\<close> and returns group 3, unescaped.
\<close>

definition property_at :: "ustr \<Rightarrow> ustr \<Rightarrow> ustr option" where
  \<comment> \<open>\<open>property=(["'])\<close>\<^emph>\<open>property\<close>\<open>\\1\<close> at the front of the text; the rest of the text\<close>
  "property_at property_name s =
     (case ci_prefix (cps ''property='') s of
        None \<Rightarrow> None
      | Some r \<Rightarrow>
          (case quote_open r of
             None \<Rightarrow> None
           | Some (q, r2) \<Rightarrow>
               (case ci_prefix property_name r2 of
                  None \<Rightarrow> None
                | Some r3 \<Rightarrow> quote_close q r3)))"

definition content_at :: "ustr \<Rightarrow> ustr option" where
  \<comment> \<open>\<open>content=(["'])(.*?)\\2\<close> at the front of the text; group 3, up to the next same quote\<close>
  "content_at s =
     (case ci_prefix (cps ''content='') s of
        None \<Rightarrow> None
      | Some r \<Rightarrow>
          (case quote_open r of
             None \<Rightarrow> None
           | Some (q, r2) \<Rightarrow> if q \<in> set r2 then Some (takeWhile (\<lambda>c. c \<noteq> q) r2) else None))"

definition meta_at :: "ustr \<Rightarrow> ustr \<Rightarrow> ustr option" where
  \<comment> \<open>the whole pattern at the front of the text\<close>
  "meta_at property_name s =
     (case ci_prefix (cps ''<meta'') s of
        None \<Rightarrow> None
      | Some [] \<Rightarrow> None
      | Some (w # r) \<Rightarrow>
          if is_space w
          then rightmost
                 (\<lambda>t. case property_at property_name t of
                        None \<Rightarrow> None
                      | Some t2 \<Rightarrow> rightmost content_at t2) r
          else None)"

definition extract_meta_value :: "library \<Rightarrow> ustr \<Rightarrow> ustr \<Rightarrow> ustr option" where
  "extract_meta_value L html_text property_name =
     (case leftmost (meta_at property_name) html_text of
        None \<Rightarrow> None
      | Some g \<Rightarrow> Some (unescape L g))"

definition to_ascii :: "library \<Rightarrow> ustr \<Rightarrow> ustr" where
  \<comment> \<open>NFKD, then \<open>encode("ascii", "ignore")\<close>: the code points below 128 are kept\<close>
  "to_ascii L text = filter (\<lambda>c. c < 128) (nfkd L text)"

definition after_segment :: "ustr \<Rightarrow> ustr list \<Rightarrow> ustr option" where
  \<comment> \<open>\<open>segments[segments.index(name) + 1]\<close> when that index exists\<close>
  "after_segment name segments =
     (case dropWhile (\<lambda>s. s \<noteq> name) segments of
        _ # shortcode # _ \<Rightarrow> Some shortcode
      | _ \<Rightarrow> None)"

definition normalize_instagram_url :: "library \<Rightarrow> ustr \<Rightarrow> ustr" where
  "normalize_instagram_url L url =
     (case url_path L url of
        None \<Rightarrow> url
      | Some path \<Rightarrow>
          (let segments = filter (\<lambda>s. s \<noteq> []) (split_on 47 path);
               found =
                 (if cps ''reel'' \<in> set segments
                  then map_option (Pair (cps ''reel'')) (after_segment (cps ''reel'') segments)
                  else if cps ''p'' \<in> set segments
                  then map_option (Pair (cps ''p'')) (after_segment (cps ''p'') segments)
                  else None)
           in case found of
                Some (content_type, shortcode) \<Rightarrow>
                  if content_type \<noteq> [] \<and> shortcode \<noteq> []
                  then cps ''https://www.instagram.com/'' @ content_type @ [47] @ shortcode @ [47]
                  else url_without_query L url
              | None \<Rightarrow> url_without_query L url))"

datatype reason = fetch_failed | no_description | no_image

record failure =
  failure_title :: ustr
  failure_url :: ustr
  failure_reason :: reason

record recipe =
  title :: ustr
  sourceUrl :: ustr
  imageUrl :: ustr
  ingredients :: "ustr list"
  steps :: "ustr list option"
  tags :: "ustr list option"
  mealTypes :: "ustr list option"
  "notes" :: "ustr option"
  descriptionPreview :: "ustr option"

definition truthy :: "ustr option \<Rightarrow> bool" where
  \<comment> \<open>Python truth of an \<open>Optional[str]\<close>: set and not empty\<close>
  "truthy x = (case x of None \<Rightarrow> False | Some s \<Rightarrow> s \<noteq> [])"

definition or_else :: "ustr option \<Rightarrow> ustr option \<Rightarrow> ustr option" where
  \<comment> \<open>Python \<open>a or b\<close>\<close>
  "or_else a b = (if truthy a then a else b)"

definition nonempty :: "ustr list \<Rightarrow> ustr list option" where
  \<comment> \<open>a key of the entry that is set only when the list is not empty\<close>
  "nonempty xs = (if xs \<noteq> [] then Some xs else None)"

definition assemble_entry :: "unicode \<Rightarrow> library \<Rightarrow> ustr \<Rightarrow> ustr \<Rightarrow> ustr \<Rightarrow> ustr \<Rightarrow> ustr \<Rightarrow> recipe" where
  \<comment> \<open>lines 637 to 663: the entry of an item whose description and image were found\<close>
  "assemble_entry U L item_title url html_text description image_url =
     (let canonical_url =
            normalize_instagram_url L
              (case or_else (extract_meta_value L html_text (cps ''og:url'')) (Some url) of
                 Some u \<Rightarrow> u | None \<Rightarrow> url);
          (found_ingredients, found_steps) = extract_recipe_content U description;
          ascii_ingredients = map (to_ascii L) found_ingredients;
          ascii_steps = map (to_ascii L) found_steps;
          inferred_tags = infer_tags U item_title found_ingredients;
          ascii_tags = map (to_ascii L) inferred_tags;
          ascii_meal_types =
            map (to_ascii L) (infer_meal_types U item_title found_ingredients inferred_tags)
      in \<lparr>title = to_ascii L item_title,
          sourceUrl = to_ascii L canonical_url,
          imageUrl = to_ascii L image_url,
          ingredients = ascii_ingredients,
          steps = nonempty ascii_steps,
          tags = nonempty ascii_tags,
          mealTypes = nonempty ascii_meal_types,
          notes =
            (if ascii_ingredients = []
             then Some (cps ''Ingredients not detected automatically.'') else None),
          descriptionPreview =
            (if ascii_ingredients = []
             then Some (take 280 (to_ascii L (join [32] (take 4 (splitlines description)))))
             else None)\<rparr>)"

definition process_pair :: "unicode \<Rightarrow> library \<Rightarrow> ustr \<times> ustr \<Rightarrow> exn + (failure + recipe)" where
  \<comment> \<open>one iteration of the loop: the exception that leaves it, the failure appended or the
      entry appended\<close>
  "process_pair U L pair =
     (case pair of (item_title, url) \<Rightarrow>
        (case fetch_html L url of
           Inl e \<Rightarrow> Inl e
         | Inr None \<Rightarrow>
             Inr (Inl \<lparr>failure_title = item_title, failure_url = url,
                       failure_reason = fetch_failed\<rparr>)
         | Inr (Some html_text) \<Rightarrow>
             if html_text = [] then
               Inr (Inl \<lparr>failure_title = item_title, failure_url = url,
                         failure_reason = fetch_failed\<rparr>)
             else
               (case extract_meta_value L html_text (cps ''og:description'') of
                  None \<Rightarrow>
                    Inr (Inl \<lparr>failure_title = item_title, failure_url = url,
                              failure_reason = no_description\<rparr>)
                | Some description \<Rightarrow>
                    if description = [] then
                      Inr (Inl \<lparr>failure_title = item_title, failure_url = url,
                                failure_reason = no_description\<rparr>)
                    else
                      (case or_else (extract_meta_value L html_text (cps ''og:image''))
                              (extract_meta_value L html_text (cps ''og:image:secure_url'')) of
                         None \<Rightarrow>
                           Inr (Inl \<lparr>failure_title = item_title, failure_url = url,
                                     failure_reason = no_image\<rparr>)
                       | Some image_url \<Rightarrow>
                           if image_url = [] then
                             Inr (Inl \<lparr>failure_title = item_title, failure_url = url,
                                       failure_reason = no_image\<rparr>)
                           else Inr (Inr (assemble_entry U L item_title url html_text
                                            description image_url))))))"

fun main_loop ::
  "unicode \<Rightarrow> library \<Rightarrow> (ustr \<times> ustr) list \<Rightarrow> recipe list \<Rightarrow> failure list
     \<Rightarrow> exn + recipe list \<times> failure list" where
  \<comment> \<open>the \<open>for\<close> loop over the pairs, with the lists \<open>results\<close> and \<open>failures\<close>; an exception
      ends the run before anything is written\<close>
  "main_loop U L [] results failures = Inr (results, failures)"
| "main_loop U L (pair # pairs) results failures =
     (case process_pair U L pair of
        Inl e \<Rightarrow> Inl e
      | Inr (Inl f) \<Rightarrow> main_loop U L pairs results (failures @ [f])
      | Inr (Inr entry) \<Rightarrow> main_loop U L pairs (results @ [entry]) failures)"

definition assemble ::
  "unicode \<Rightarrow> library \<Rightarrow> (ustr \<times> ustr) list \<Rightarrow> exn + recipe list \<times> failure list" where
  \<comment> \<open>the loop started with \<open>results = []\<close> and \<open>failures = []\<close>\<close>
  "assemble U L pairs = main_loop U L pairs [] []"

definition main ::
  "unicode \<Rightarrow> (bytes \<Rightarrow> exn + bytes) \<Rightarrow> library \<Rightarrow> bytes
     \<Rightarrow> exn + recipe list \<times> failure list" where
  \<comment> \<open>\<open>main\<close> on the bytes of the file: the records and failures that are written, or the
      exception that ends the run\<close>
  "main U inflate L raw =
     (case parse_pdf_pairs U inflate raw of
        Inl e \<Rightarrow> Inl e
      | Inr pairs \<Rightarrow> assemble U L pairs)"

definition nul_pdf :: bytes where
  \<comment> \<open>a content stream that shows \<open>Soup\<close> and then a URL written with the octal escape of the
      null character, for concrete runs\<close>
  "nul_pdf =
     ''stream'' @ [CHR 0x0A] @ ''(Soup) Tj'' @ [CHR 0x0A]
     @ ''(https://a'' @ [CHR 0x5C] @ ''000b) Tj'' @ [CHR 0x0A] @ ''endstream''"

definition degraded_ok :: "recipe \<Rightarrow> bool" where
  \<comment> \<open>the degraded-record contract for one record\<close>
  "degraded_ok e =
     (ingredients e = [] \<longrightarrow>
        notes e \<noteq> None \<and> (\<exists>p. descriptionPreview e = Some p \<and> length p \<le> 280))"

section \<open>Meta-tag resolver (\<open>cache_source_preview_images\<close>)\<close>

definition META_CANDIDATES :: "(ustr \<times> ustr) list" where
  "META_CANDIDATES =
     [(cps ''property'', cps ''og:image:secure_url''),
      (cps ''property'', cps ''og:image:url''),
      (cps ''property'', cps ''og:image''),
      (cps ''name'', cps ''og:image''),
      (cps ''property'', cps ''twitter:image''),
      (cps ''name'', cps ''twitter:image''),
      (cps ''property'', cps ''twitter:image:src''),
      (cps ''name'', cps ''twitter:image:src''),
      (cps ''itemprop'', cps ''image''),
      (cps ''name'', cps ''thumbnail'')]"

definition attr_assign :: "ustr \<Rightarrow> ustr \<Rightarrow> ustr \<Rightarrow> ustr option" where
  \<comment> \<open>\<^emph>\<open>attr\<close>\<open>\\s*=\\s*(["'])\<close>\<^emph>\<open>value\<close>\<open>\\1\<close> at the front of the text, ignoring case; the rest\<close>
  "attr_assign attr attr_value s =
     (case ci_prefix attr s of
        None \<Rightarrow> None
      | Some r \<Rightarrow>
          (case literal [61] (dropWhile is_space r) of
             None \<Rightarrow> None
           | Some r2 \<Rightarrow>
               (case quote_open (dropWhile is_space r2) of
                  None \<Rightarrow> None
                | Some (q, r3) \<Rightarrow>
                    (case ci_prefix attr_value r3 of
                       None \<Rightarrow> None
                     | Some r4 \<Rightarrow> quote_close q r4))))"

definition close_tag :: "ustr \<Rightarrow> ustr option" where
  \<comment> \<open>\<open>[^>]*>\<close>: the text after the next \<open>>\<close>\<close>
  "close_tag s = (case dropWhile (\<lambda>c. c \<noteq> 62) s of [] \<Rightarrow> None | c # r \<Rightarrow> Some r)"

fun assign_any :: "ustr \<Rightarrow> ustr list \<Rightarrow> ustr \<Rightarrow> ustr option" where
  \<comment> \<open>the attribute with one of the alternative values, then \<open>[^>]*>\<close>; the text after the tag\<close>
  "assign_any attr [] s = None"
| "assign_any attr (v # vs) s =
     (case (case attr_assign attr v s of None \<Rightarrow> None | Some r \<Rightarrow> close_tag r) of
        Some r \<Rightarrow> Some r
      | None \<Rightarrow> assign_any attr vs s)"

definition tag_at :: "ustr \<Rightarrow> ustr \<Rightarrow> ustr list \<Rightarrow> ustr \<Rightarrow> ustr option" where
  \<comment> \<open>\<open><\<close>\<^emph>\<open>name\<close>\<open>[^>]*\<close>\<^emph>\<open>attr\<close>\<open>\\s*=\\s*(["'])(?:\<close>\<^emph>\<open>values\<close>\<open>)\\1[^>]*>\<close> at the front of the text;
      the result is the matched text, \<open>group(0)\<close>\<close>
  "tag_at name attr attr_values s =
     (case ci_prefix (60 # name) s of
        None \<Rightarrow> None
      | Some r \<Rightarrow>
          (case rightmost (assign_any attr attr_values) r of
             None \<Rightarrow> None
           | Some rest \<Rightarrow> Some (take (length s - length rest) s)))"

definition meta_regex_search :: "ustr \<Rightarrow> ustr \<Rightarrow> ustr \<Rightarrow> ustr option" where
  \<comment> \<open>\<open>_meta_regex(attr, value).search(snippet)\<close>, the matched tag\<close>
  "meta_regex_search attr attr_value snippet =
     leftmost (tag_at (cps ''meta'') attr [attr_value]) snippet"

definition quoted_at :: "ustr \<Rightarrow> ustr \<Rightarrow> ustr option" where
  \<comment> \<open>\<^emph>\<open>name\<close>\<open>\\s*=\\s*(["'])(.*?)\\1\<close> at the front of the text; group 2\<close>
  "quoted_at name s =
     (case ci_prefix name s of
        None \<Rightarrow> None
      | Some r \<Rightarrow>
          (case literal [61] (dropWhile is_space r) of
             None \<Rightarrow> None
           | Some r2 \<Rightarrow>
               (case quote_open (dropWhile is_space r2) of
                  None \<Rightarrow> None
                | Some (q, r3) \<Rightarrow>
                    map_option fst (lazy_until (\<lambda>c. c \<noteq> 10) (quote_close q) r3))))"

definition extract_content :: "library \<Rightarrow> ustr \<Rightarrow> ustr option" where
  \<comment> \<open>\<open>_extract_content\<close>\<close>
  "extract_content L tag =
     map_option (\<lambda>g. unescape L (strip g)) (leftmost (quoted_at (cps ''content'')) tag)"

definition candidate_content :: "library \<Rightarrow> ustr \<Rightarrow> ustr \<times> ustr \<Rightarrow> ustr option" where
  \<comment> \<open>the body of the loop over the candidates: the content that makes the loop return\<close>
  "candidate_content L snippet candidate =
     (case candidate of (attr, attr_value) \<Rightarrow>
        (case meta_regex_search attr attr_value snippet of
           None \<Rightarrow> None
         | Some tag \<Rightarrow>
             (case extract_content L tag of
                None \<Rightarrow> None
              | Some content \<Rightarrow> if content \<noteq> [] then Some content else None)))"

fun try_candidates :: "library \<Rightarrow> ustr \<Rightarrow> ustr \<Rightarrow> (ustr \<times> ustr) list \<Rightarrow> ustr option" where
  "try_candidates L snippet base_url [] = None"
| "try_candidates L snippet base_url (candidate # rest) =
     (case candidate_content L snippet candidate of
        Some content \<Rightarrow> Some (urljoin L base_url content)
      | None \<Rightarrow> try_candidates L snippet base_url rest)"

definition link_fallback :: "library \<Rightarrow> ustr \<Rightarrow> ustr \<Rightarrow> ustr option" where
  "link_fallback L snippet base_url =
     (case leftmost (tag_at (cps ''link'') (cps ''rel'') [cps ''image_src'', cps ''thumbnail''])
             snippet of
        None \<Rightarrow> None
      | Some tag \<Rightarrow>
          (case leftmost (quoted_at (cps ''href'')) tag of
             None \<Rightarrow> None
           | Some href \<Rightarrow> Some (urljoin L base_url (unescape L (strip href)))))"

definition extract_preview_from_html :: "library \<Rightarrow> ustr \<Rightarrow> ustr \<Rightarrow> ustr option" where
  \<comment> \<open>\<open>_extract_preview_from_html\<close>\<close>
  "extract_preview_from_html L html_text base_url =
     (let snippet = take 200000 html_text
      in case try_candidates L snippet base_url META_CANDIDATES of
           Some url \<Rightarrow> Some url
         | None \<Rightarrow> link_fallback L snippet base_url)"

definition og_tag :: ustr where
  \<comment> \<open>the tag \<open><meta property="og:image" content="o.png">\<close>, for concrete documents\<close>
  "og_tag = cps ''<meta property='' @ [34] @ cps ''og:image'' @ [34] @ cps '' content='' @ [34]
     @ cps ''o.png'' @ [34] @ cps ''>''"

definition twitter_tag :: ustr where
  \<comment> \<open>the tag \<open><meta property="twitter:image" content="t.png">\<close>, for concrete documents\<close>
  "twitter_tag = cps ''<meta property='' @ [34] @ cps ''twitter:image'' @ [34]
     @ cps '' content='' @ [34] @ cps ''t.png'' @ [34] @ cps ''>''"
section \<open>Properties of the string-literal decoder\<close>

lemma take_octal_append_nonoctal:
  "\<not> is_octal c \<Longrightarrow> take_octal k (xs @ [c]) = (fst (take_octal k xs), snd (take_octal k xs) @ [c])"
  by (induction k xs rule: take_octal.induct) (auto split: prod.splits)

lemma take_octal_decomp: "xs = fst (take_octal k xs) @ snd (take_octal k xs)"
  by (induction k xs rule: take_octal.induct) (auto split: prod.splits)

lemma take_octal_digits: "\<forall>d \<in> set (fst (take_octal k xs)). is_octal d"
  by (induction k xs rule: take_octal.induct) (auto split: prod.splits)

lemma trailing_backslashes_Nil: "trailing_backslashes [] = 0"
  by (simp add: trailing_backslashes_def)

lemma trailing_backslashes_snoc:
  "trailing_backslashes (xs @ [c]) = (if c = 92 then Suc (trailing_backslashes xs) else 0)"
  by (simp add: trailing_backslashes_def)

lemma trailing_backslashes_Cons:
  "trailing_backslashes (x # xs) =
     (if \<forall>c \<in> set xs. c = 92 then (if x = 92 then Suc (length xs) else length xs)
      else trailing_backslashes xs)"
  by (induction xs rule: rev_induct) (auto simp: trailing_backslashes_snoc trailing_backslashes_Nil trailing_backslashes_def takeWhile_append1 takeWhile_append2)

lemma trailing_all: "\<forall>c \<in> set xs. c = 92 \<Longrightarrow> trailing_backslashes xs = length xs"
proof -
  assume a: "\<forall>c \<in> set xs. c = 92"
  then have "takeWhile (\<lambda>c. c = 92) (rev xs) = rev xs"
    by (simp add: takeWhile_eq_all_conv)
  then have "length (takeWhile (\<lambda>c. c = 92) (rev xs)) = length (rev xs)"
    by (simp only:)
  then show ?thesis by (simp only: trailing_backslashes_def length_rev)
qed

lemma trailing_backslashes_skip:
  "ch \<noteq> 92 \<Longrightarrow> trailing_backslashes (ch # rest) = trailing_backslashes rest"
  by (simp add: trailing_backslashes_Cons trailing_all)

lemma trailing_backslashes_skips:
  "\<forall>d \<in> set ds. d \<noteq> 92 \<Longrightarrow> trailing_backslashes (ds @ r) = trailing_backslashes r"
  by (induction ds) (simp_all add: trailing_backslashes_skip)

lemma trailing_backslashes_pair:
  "even (trailing_backslashes (92 # esc # rest')) = even (trailing_backslashes rest')"
  by (simp add: trailing_backslashes_Cons trailing_all)

lemma not_octal_92: "\<not> is_octal 92"
  by (simp add: is_octal_def)

lemma trailing_backslashes_octal:
  assumes "is_octal esc"
  shows "trailing_backslashes (92 # esc # rest') = trailing_backslashes (snd (take_octal 2 rest'))"
proof -
  have ne: "\<forall>d \<in> set (fst (take_octal 2 rest')). d \<noteq> 92"
    using take_octal_digits [of 2 rest'] not_octal_92 by auto
  have "esc \<noteq> 92" using assms not_octal_92 by auto
  have "trailing_backslashes (92 # esc # rest') = trailing_backslashes (esc # rest')"
    using \<open>esc \<noteq> 92\<close> by (simp add: trailing_backslashes_Cons)
  also have "\<dots> = trailing_backslashes rest'"
    using \<open>esc \<noteq> 92\<close> by (rule trailing_backslashes_skip)
  also have "\<dots> = trailing_backslashes (fst (take_octal 2 rest') @ snd (take_octal 2 rest'))"
    using take_octal_decomp [of rest' 2] by simp
  also have "\<dots> = trailing_backslashes (snd (take_octal 2 rest'))"
    using ne by (rule trailing_backslashes_skips)
  finally show ?thesis .
qed

lemma decode_plain: "ch \<noteq> 92 \<Longrightarrow> decode_pdf_string (ch # rest) = ch # decode_pdf_string rest"
  by (simp add: decode_pdf_string.simps(2))

lemma decode_lone_backslash: "decode_pdf_string [92] = []"
  by (simp add: decode_pdf_string.simps(2))

lemma decode_escape:
  "decode_pdf_string (92 # esc # rest') =
     (if esc = 40 \<or> esc = 41 \<or> esc = 92 then esc # decode_pdf_string rest'
      else if esc = 110 then 10 # decode_pdf_string rest'
      else if esc = 114 then 13 # decode_pdf_string rest'
      else if esc = 116 then 9 # decode_pdf_string rest'
      else if esc = 98 then 8 # decode_pdf_string rest'
      else if esc = 102 then 12 # decode_pdf_string rest'
      else if is_octal esc then
        int8 (esc # fst (take_octal 2 rest')) # decode_pdf_string (snd (take_octal 2 rest'))
      else esc # decode_pdf_string rest')"
  by (simp add: decode_pdf_string.simps(2))

lemma octal_not_named:
  "is_octal esc \<Longrightarrow> esc \<noteq> 40 \<and> esc \<noteq> 41 \<and> esc \<noteq> 92 \<and> esc \<noteq> 110 \<and> esc \<noteq> 114
     \<and> esc \<noteq> 116 \<and> esc \<noteq> 98 \<and> esc \<noteq> 102"
  by (auto simp: is_octal_def)

lemma decode_octal:
  "is_octal esc \<Longrightarrow> decode_pdf_string (92 # esc # rest') =
     int8 (esc # fst (take_octal 2 rest')) # decode_pdf_string (snd (take_octal 2 rest'))"
  using octal_not_named [of esc] by (simp add: decode_escape)

lemma decode_non_octal_escape:
  "\<not> is_octal esc \<Longrightarrow> decode_pdf_string (92 # esc # r) =
     (if esc = 110 then 10 else if esc = 114 then 13 else if esc = 116 then 9
      else if esc = 98 then 8 else if esc = 102 then 12 else esc) # decode_pdf_string r"
  by (simp add: decode_escape)

lemma decode_dangling:
  "even (trailing_backslashes pre) \<Longrightarrow> decode_pdf_string (pre @ [92]) = decode_pdf_string pre"
proof (induction pre rule: length_induct)
  case (1 pre)
  note IH = "1.IH" [rule_format]
  show ?case
  proof (cases pre)
    case Nil
    then show ?thesis by (simp only: append_Nil decode_lone_backslash decode_pdf_string.simps(1))
  next
    case (Cons ch rest)
    show ?thesis
    proof (cases "ch = 92")
      case False
      have "even (trailing_backslashes rest)"
        using "1.prems" Cons False by (simp add: trailing_backslashes_skip)
      then have "decode_pdf_string (rest @ [92]) = decode_pdf_string rest"
        using IH [of rest] Cons by simp
      then show ?thesis
        using False Cons by (simp add: decode_plain)
    next
      case True
      show ?thesis
      proof (cases rest)
        case Nil
        have "trailing_backslashes pre = 1"
          using Cons True Nil by (simp add: trailing_backslashes_def)
        with "1.prems" show ?thesis by simp
      next
        case (Cons esc rest')
        have pre: "pre = 92 # esc # rest'"
          using \<open>pre = ch # rest\<close> True Cons by simp
        show ?thesis
        proof (cases "is_octal esc")
          case False
          note c = decode_non_octal_escape [OF False]
          have "even (trailing_backslashes rest')"
            using "1.prems" pre by (simp add: trailing_backslashes_pair)
          then have "decode_pdf_string (rest' @ [92]) = decode_pdf_string rest'"
            using IH [of rest'] pre by simp
          then show ?thesis
            by (simp add: pre c)
        next
          case oct: True
          let ?r = "snd (take_octal 2 rest')"
          have "even (trailing_backslashes ?r)"
            using "1.prems" pre oct by (simp add: trailing_backslashes_octal)
          moreover have "length ?r < length pre"
            using take_octal_length [of 2 rest'] pre by simp
          ultimately have "decode_pdf_string (?r @ [92]) = decode_pdf_string ?r"
            using IH [of ?r] by simp
          then show ?thesis
            by (simp add: pre decode_octal [OF oct]
                  take_octal_append_nonoctal [OF not_octal_92])
        qed
      qed
    qed
  qed
qed

lemma decode_pdf_string_rel_decreases: "decode_pdf_string_rel x y \<Longrightarrow> length x < length y"
proof (induction rule: decode_pdf_string_rel.induct)
  fix ch :: nat and rest :: ustr and x21 :: nat and x22 :: ustr
  assume "rest = x21 # x22"
  have "length (snd (take_octal 2 x22)) \<le> length x22" by (rule take_octal_length)
  then show "length (snd (take_octal 2 x22)) < length (ch # rest)"
    using \<open>rest = x21 # x22\<close> by simp
qed simp_all

lemma decode_pdf_string_dom_all: "decode_pdf_string_dom data"
proof -
  have "wfp (\<lambda>x y :: ustr. length x < length y)"
    using wf_measure [of "length :: ustr \<Rightarrow> nat"] by (simp add: wfp_def measure_def inv_image_def)
  then have "Wellfounded.accp (\<lambda>x y :: ustr. length x < length y) data"
    by (rule accp_wfpD)
  moreover have "decode_pdf_string_rel \<le> (\<lambda>x y. length x < length y)"
    using decode_pdf_string_rel_decreases by auto
  ultimately show ?thesis
    using accp_subset by blast
qed

lemma take_octal_2: "take_octal 2 xs = take_octal (Suc (Suc 0)) xs"
  by (simp add: numeral_2_eq_2)

lemma int8_digits: "int8 [d1] = d1 - 48" "int8 [d1, d2] = 8 * (d1 - 48) + (d2 - 48)"
  "int8 [d1, d2, d3] = 64 * (d1 - 48) + 8 * (d2 - 48) + (d3 - 48)"
  by (simp_all add: int8_def)

lemma decode_pdf_string_length: "length (decode_pdf_string data) \<le> length data"
proof (induction data rule: length_induct)
  case (1 data)
  note IH = "1.IH" [rule_format]
  show ?case
  proof (cases data)
    case Nil
    then show ?thesis by simp
  next
    case (Cons ch rest)
    show ?thesis
    proof (cases "ch = 92")
      case False
      then show ?thesis using IH [of rest] Cons by (simp add: decode_plain)
    next
      case True
      show ?thesis
      proof (cases rest)
        case Nil
        then show ?thesis using Cons True by (simp add: decode_lone_backslash)
      next
        case (Cons esc rest')
        have data: "data = 92 # esc # rest'"
          using \<open>data = ch # rest\<close> True Cons by simp
        show ?thesis
        proof (cases "is_octal esc")
          case False
          show ?thesis using IH [of rest'] data by (simp add: decode_non_octal_escape [OF False])
        next
          case oct: True
          have "length (snd (take_octal 2 rest')) \<le> length rest'"
            by (rule take_octal_length)
          then show ?thesis
            using IH [of "snd (take_octal 2 rest')"] data by (simp add: decode_octal [OF oct])
        qed
      qed
    qed
  qed
qed

lemma decode_three_octal:
  assumes "is_octal d1" "is_octal d2" "is_octal d3"
  shows "decode_pdf_string (92 # d1 # d2 # d3 # rest) =
           (64 * (d1 - 48) + 8 * (d2 - 48) + (d3 - 48)) # decode_pdf_string rest"
  using assms by (simp add: decode_octal take_octal_2 int8_digits)

lemma decode_two_octal:
  assumes "is_octal d1" "is_octal d2" "case rest of [] \<Rightarrow> True | c # _ \<Rightarrow> \<not> is_octal c"
  shows "decode_pdf_string (92 # d1 # d2 # rest) = (8 * (d1 - 48) + (d2 - 48)) # decode_pdf_string rest"
  using assms by (cases rest) (simp_all add: decode_octal take_octal_2 int8_digits)

lemma decode_one_octal:
  assumes "is_octal d1" "case rest of [] \<Rightarrow> True | c # _ \<Rightarrow> \<not> is_octal c"
  shows "decode_pdf_string (92 # d1 # rest) = (d1 - 48) # decode_pdf_string rest"
  using assms by (cases rest) (simp_all add: decode_octal take_octal_2 int8_digits)

lemma decode_example:
  "decode_pdf_string ([92, 48, 53, 48] @ cps ''Hi'' @ [92, 48, 53, 49]) = cps ''(Hi)''"
  by (simp add: cps_def decode_escape decode_plain is_octal_def int8_def take_octal_2)

text \<open>
  Claim C7. The decoder maps every supported escape to its intended character, whatever
  follows it in the input: backslash followed by \<open>(\<close>, \<open>)\<close> or backslash yields that
  character; \<open>\\n\<close>, \<open>\\r\<close>, \<open>\\t\<close>, \<open>\\b\<close>, \<open>\\f\<close> yield line feed (10), carriage return
  (13), tab (9), backspace (8) and form feed (12); a backslash followed by one, two or three
  octal digits yields the character whose code is that octal number (up to 511 for
  \<open>\\777\<close>); any other escaped character is passed through; an unescaped character is copied;
  and \<open>\\050Hi\\051\<close> decodes to \<open>(Hi)\<close>.
\<close>

theorem decode_pdf_string_escapes:
  "(esc = 40 \<or> esc = 41 \<or> esc = 92 \<longrightarrow>
      decode_pdf_string (92 # esc # rest) = esc # decode_pdf_string rest)
   \<and> decode_pdf_string (92 # 110 # rest) = 10 # decode_pdf_string rest
   \<and> decode_pdf_string (92 # 114 # rest) = 13 # decode_pdf_string rest
   \<and> decode_pdf_string (92 # 116 # rest) = 9 # decode_pdf_string rest
   \<and> decode_pdf_string (92 # 98 # rest) = 8 # decode_pdf_string rest
   \<and> decode_pdf_string (92 # 102 # rest) = 12 # decode_pdf_string rest
   \<and> (is_octal d1 \<and> (case rest of [] \<Rightarrow> True | c # _ \<Rightarrow> \<not> is_octal c) \<longrightarrow>
      decode_pdf_string (92 # d1 # rest) = (d1 - 48) # decode_pdf_string rest)
   \<and> (is_octal d1 \<and> is_octal d2 \<and> (case rest of [] \<Rightarrow> True | c # _ \<Rightarrow> \<not> is_octal c) \<longrightarrow>
      decode_pdf_string (92 # d1 # d2 # rest) = (8 * (d1 - 48) + (d2 - 48)) # decode_pdf_string rest)
   \<and> (is_octal d1 \<and> is_octal d2 \<and> is_octal d3 \<longrightarrow>
      decode_pdf_string (92 # d1 # d2 # d3 # rest) =
        (64 * (d1 - 48) + 8 * (d2 - 48) + (d3 - 48)) # decode_pdf_string rest)
   \<and> (other \<notin> {40, 41, 92, 110, 114, 116, 98, 102} \<and> \<not> is_octal other \<longrightarrow>
      decode_pdf_string (92 # other # rest) = other # decode_pdf_string rest)
   \<and> (ch \<noteq> 92 \<longrightarrow> decode_pdf_string (ch # rest) = ch # decode_pdf_string rest)
   \<and> decode_pdf_string ([92, 48, 53, 48] @ cps ''Hi'' @ [92, 48, 53, 49]) = cps ''(Hi)''"
proof (intro conjI impI)
  assume "esc = 40 \<or> esc = 41 \<or> esc = 92"
  then show "decode_pdf_string (92 # esc # rest) = esc # decode_pdf_string rest"
    by (simp add: decode_escape)
next
  assume "is_octal d1 \<and> (case rest of [] \<Rightarrow> True | c # _ \<Rightarrow> \<not> is_octal c)"
  then show "decode_pdf_string (92 # d1 # rest) = (d1 - 48) # decode_pdf_string rest"
    by (simp add: decode_one_octal)
next
  assume "is_octal d1 \<and> is_octal d2 \<and> (case rest of [] \<Rightarrow> True | c # _ \<Rightarrow> \<not> is_octal c)"
  then show "decode_pdf_string (92 # d1 # d2 # rest) =
      (8 * (d1 - 48) + (d2 - 48)) # decode_pdf_string rest"
    by (simp add: decode_two_octal)
next
  assume "is_octal d1 \<and> is_octal d2 \<and> is_octal d3"
  then show "decode_pdf_string (92 # d1 # d2 # d3 # rest) =
      (64 * (d1 - 48) + 8 * (d2 - 48) + (d3 - 48)) # decode_pdf_string rest"
    by (simp add: decode_three_octal)
next
  assume "other \<notin> {40, 41, 92, 110, 114, 116, 98, 102} \<and> \<not> is_octal other"
  then show "decode_pdf_string (92 # other # rest) = other # decode_pdf_string rest"
    by (simp add: decode_escape)
next
  assume "ch \<noteq> 92"
  then show "decode_pdf_string (ch # rest) = ch # decode_pdf_string rest"
    by (rule decode_plain)
next
  show "decode_pdf_string ([92, 48, 53, 48] @ cps ''Hi'' @ [92, 48, 53, 49]) = cps ''(Hi)''"
    by (rule decode_example)
qed (simp_all add: decode_escape is_octal_def)

theorem decode_pdf_string_escapes_witness:
  "decode_pdf_string [92, 41, 65] = [41, 65]
   \<and> decode_pdf_string [92, 49, 65] = [1, 65]
   \<and> decode_pdf_string [92, 49, 50, 65] = [10, 65]
   \<and> decode_pdf_string [92, 49, 50, 51, 65] = [83, 65]
   \<and> decode_pdf_string [92, 113, 65] = [113, 65]
   \<and> decode_pdf_string [65, 65] = 65 # decode_pdf_string [65]"
  using decode_pdf_string_escapes [where esc = 41 and rest = "[65]" and ?d1.0 = 49 and ?d2.0 = 50
      and ?d3.0 = 51 and other = 113 and ch = 65]
  by (simp add: is_octal_def decode_plain)

text \<open>
  Claim C10. The decoder is total: its recursion terminates on every input (the domain
  predicate of the function holds everywhere and the output is never longer than the input),
  and on an input that ends in a single unpaired backslash, that is, a backslash that follows
  an even number of backslashes, it returns the decoding of the prefix before that backslash.
\<close>

theorem decode_pdf_string_total:
  "decode_pdf_string_dom data
   \<and> length (decode_pdf_string data) \<le> length data
   \<and> (even (trailing_backslashes pre) \<longrightarrow>
        decode_pdf_string (pre @ [92]) = decode_pdf_string pre)"
  using decode_pdf_string_dom_all [of data] decode_pdf_string_length [of data]
    decode_dangling [of pre]
  by simp

theorem decode_pdf_string_total_witness:
  "even (trailing_backslashes (cps ''ab'')) \<and> decode_pdf_string (cps ''ab'' @ [92]) = cps ''ab''"
  using decode_pdf_string_total [of "[]" "cps ''ab''"]
  by (simp add: cps_def trailing_backslashes_def decode_plain)

section \<open>Properties of the tokenizer\<close>

lemma collect_streams_Inr:
  "collect_streams inflate gs =
     Inr (map (\<lambda>g. cps (case inflate (dropWhile (\<lambda>c. c = CHR 0x0D \<or> c = CHR 0x0A) g) of
                          Inr out \<Rightarrow> out
                        | Inl e \<Rightarrow> dropWhile (\<lambda>c. c = CHR 0x0D \<or> c = CHR 0x0A) g)) gs)"
  by (induction gs) (simp_all add: decompress_or_raw_def split: sum.splits)

lemma content_texts_Inr:
  "content_texts inflate raw =
     Inr (concat (map stream_texts
       (map (\<lambda>g. cps (case inflate (dropWhile (\<lambda>c. c = CHR 0x0D \<or> c = CHR 0x0A) g) of
                          Inr out \<Rightarrow> out
                        | Inl e \<Rightarrow> dropWhile (\<lambda>c. c = CHR 0x0D \<or> c = CHR 0x0A) g))
          (find_all stream_at raw))))"
  by (simp add: content_texts_def collect_streams_Inr)

lemma stream_texts_nonblank: "t \<in> set (stream_texts content) \<Longrightarrow> strip t \<noteq> []"
  by (auto simp: stream_texts_def)

lemma content_texts_nonblank:
  "content_texts inflate raw = Inr texts \<Longrightarrow> t \<in> set texts \<Longrightarrow> strip t \<noteq> []"
  by (auto simp: content_texts_Inr stream_texts_nonblank)

lemma content_texts_empty: "content_texts inflate [] = Inr []"
  by (simp add: content_texts_def stream_at_def)

lemma find_all_none: "(\<And>t. m t = None) \<Longrightarrow> find_all m s = []"
  by (induction s) (simp_all add: find_all.simps(2))

lemma find_all_no_start:
  assumes "\<And>c t. c \<noteq> x \<Longrightarrow> m (c # t) = None" "m [] = None" "x \<notin> set s"
  shows "find_all m s = []"
  using assms(3)
proof (induction s)
  case Nil
  show ?case by (simp add: assms(2))
next
  case (Cons c s)
  then have "c \<noteq> x" "x \<notin> set s" by auto
  then show ?case using Cons.IH by (simp add: find_all.simps(2) assms(1))
qed

lemma paren_at_start: "c \<noteq> 40 \<Longrightarrow> paren_at (c # t) = None" "paren_at [] = None"
  by (simp_all add: paren_at_def cps_def)

lemma tj_string_at_start: "c \<noteq> 40 \<Longrightarrow> tj_string_at (c # t) = None" "tj_string_at [] = None"
  by (simp_all add: tj_string_at_def cps_def)

lemma find_all_paren_none: "40 \<notin> set s \<Longrightarrow> find_all paren_at s = []"
  by (rule find_all_no_start [where x = 40]) (simp_all add: paren_at_start)

lemma find_all_tj_string_none: "40 \<notin> set s \<Longrightarrow> find_all tj_string_at s = []"
  by (rule find_all_no_start [where x = 40]) (simp_all add: tj_string_at_start)

lemma literal_suffix: "literal p s = Some r \<Longrightarrow> set r \<subseteq> set s"
  by (induction p s rule: literal.induct) (auto split: if_splits)

lemma show_operator_suffix: "show_operator b n s = Some r \<Longrightarrow> set r \<subseteq> set s"
proof -
  assume a: "show_operator b n s = Some r"
  then obtain r1 where r1: "literal b s = Some r1" "literal n (dropWhile is_space r1) = Some r"
    by (auto simp: show_operator_def split: option.splits)
  have "set r \<subseteq> set (dropWhile is_space r1)" using r1(2) by (rule literal_suffix)
  moreover have "set (dropWhile is_space r1) \<subseteq> set r1" by (rule set_dropWhileD [THEN subsetI]) 
  moreover have "set r1 \<subseteq> set s" using r1(1) by (rule literal_suffix)
  ultimately show ?thesis by blast
qed

lemma lazy_until_sets:
  assumes "\<And>t r. close t = Some r \<Longrightarrow> set r \<subseteq> set t"
  shows "lazy_until dot close s = Some (g, r) \<Longrightarrow> set g \<subseteq> set s \<and> set r \<subseteq> set s"
proof (induction s arbitrary: g r)
  case Nil
  then show ?case using assms [of "[]"] by (auto split: option.splits)
next
  case (Cons c s)
  show ?case
  proof (cases "close (c # s)")
    case (Some r')
    then show ?thesis using Cons.prems assms [of "c # s" r'] by auto
  next
    case None
    then obtain g' where g': "lazy_until dot close s = Some (g', r)" "g = c # g'"
      using Cons.prems by (auto split: if_splits option.splits)
    then show ?thesis using Cons.IH [of g' r] by auto
  qed
qed

lemma tj_array_at_sets:
  "tj_array_at s = Some (g, r) \<Longrightarrow> set g \<subseteq> set s \<and> set r \<subseteq> set s"
proof -
  assume a: "tj_array_at s = Some (g, r)"
  then obtain r1 where r1: "literal (cps ''['') s = Some r1"
      "lazy_until (\<lambda>c. True) (show_operator (cps '']'') (cps ''TJ'')) r1 = Some (g, r)"
    by (auto simp: tj_array_at_def split: option.splits)
  have "set g \<subseteq> set r1 \<and> set r \<subseteq> set r1"
    using r1(2) by (rule lazy_until_sets [rotated]) (rule show_operator_suffix)
  moreover have "set r1 \<subseteq> set s" using r1(1) by (rule literal_suffix)
  ultimately show ?thesis by blast
qed

lemma find_all_tj_array_sets:
  "a \<in> set (find_all tj_array_at s) \<Longrightarrow> set a \<subseteq> set s"
proof (induction s arbitrary: a rule: length_induct)
  case (1 s)
  note IH = "1.IH" [rule_format]
  show ?case
  proof (cases s)
    case Nil
    then show ?thesis using "1.prems" by (simp add: tj_array_at_def cps_def)
  next
    case (Cons c t)
    show ?thesis
    proof (cases "tj_array_at (c # t)")
      case None
      then have "a \<in> set (find_all tj_array_at t)"
        using "1.prems" Cons by (simp add: find_all.simps(2))
      then show ?thesis using IH [of t a] Cons by auto
    next
      case (Some gr)
      obtain g r where gr: "gr = (g, r)" by (cases gr)
      have sets: "set g \<subseteq> set s \<and> set r \<subseteq> set s"
        using tj_array_at_sets [of s g r] Some gr Cons by simp
      show ?thesis
      proof (cases "length r \<le> length t")
        case True
        then have "a = g \<or> a \<in> set (find_all tj_array_at r)"
          using "1.prems" Cons Some gr by (simp add: find_all.simps(2))
        then show ?thesis using IH [of r a] True Cons sets by auto
      next
        case False
        then have "a = g \<or> a \<in> set (find_all tj_array_at t)"
          using "1.prems" Cons Some gr by (simp add: find_all.simps(2))
        then show ?thesis using IH [of t a] Cons sets by auto
      qed
    qed
  qed
qed

lemma strip_Nil: "strip [] = []"
  by (simp add: strip_def)

lemma stream_texts_no_literal: "40 \<notin> set content \<Longrightarrow> stream_texts content = []"
proof -
  assume a: "40 \<notin> set content"
  have "\<forall>array \<in> set (find_all tj_array_at content). find_all paren_at array = []"
    using a find_all_tj_array_sets find_all_paren_none by blast
  then have "filter (\<lambda>text. strip text \<noteq> [])
       (map (\<lambda>array. concat (map decode_pdf_string (find_all paren_at array)))
          (find_all tj_array_at content)) = []"
    by (simp add: filter_empty_conv strip_Nil)
  then show ?thesis
    using a by (simp add: stream_texts_def find_all_tj_string_none)
qed

lemma content_texts_example: "content_texts (\<lambda>d. Inl Exception)
     (''stream'' @ [CHR 0x0A] @ ''(Hi) Tj'' @ [CHR 0x0A] @ ''endstream'') = Inr [cps ''Hi'']"
  by (simp add: content_texts_Inr find_all.simps(2) stream_at_def stream_texts_def
      tj_array_at_def tj_string_at_def show_operator_def paren_at_def cps_def
      decode_plain strip_def is_space_def)

text \<open>
  Claim C8. For every behaviour of the decompressor and for all input bytes the tokenizer
  returns a list of fragments and no exception: the data of each \<open>stream ... endstream\<close>
  region is the decompressed data when decompression succeeds and the raw data when it raises;
  every fragment returned has non-blank text; a region whose text holds no parenthesized
  literal contributes no fragment; and the result can be the empty list, as it is for empty
  input.
\<close>

theorem content_texts_never_raises:
  "(\<exists>texts. content_texts inflate raw = Inr texts)
   \<and> decompress_or_raw inflate d = Inr (case inflate d of Inr out \<Rightarrow> out | Inl e \<Rightarrow> d)
   \<and> content_texts inflate raw =
        Inr (concat (map stream_texts
          (map (\<lambda>g. cps (case inflate (dropWhile (\<lambda>c. c = CHR 0x0D \<or> c = CHR 0x0A) g) of
                             Inr out \<Rightarrow> out
                           | Inl e \<Rightarrow> dropWhile (\<lambda>c. c = CHR 0x0D \<or> c = CHR 0x0A) g))
             (find_all stream_at raw))))
   \<and> (\<forall>texts. content_texts inflate raw = Inr texts \<longrightarrow> (\<forall>t \<in> set texts. strip t \<noteq> []))
   \<and> (40 \<notin> set content \<longrightarrow> stream_texts content = [])
   \<and> content_texts inflate [] = Inr []"
proof (intro conjI allI impI ballI)
  show "\<exists>texts. content_texts inflate raw = Inr texts"
    by (simp add: content_texts_Inr)
  show "decompress_or_raw inflate d = Inr (case inflate d of Inr out \<Rightarrow> out | Inl e \<Rightarrow> d)"
    by (simp add: decompress_or_raw_def split: sum.splits)
  show "content_texts inflate raw =
        Inr (concat (map stream_texts
          (map (\<lambda>g. cps (case inflate (dropWhile (\<lambda>c. c = CHR 0x0D \<or> c = CHR 0x0A) g) of
                             Inr out \<Rightarrow> out
                           | Inl e \<Rightarrow> dropWhile (\<lambda>c. c = CHR 0x0D \<or> c = CHR 0x0A) g))
             (find_all stream_at raw))))"
    by (rule content_texts_Inr)
  show "content_texts inflate [] = Inr []"
    by (rule content_texts_empty)
next
  fix texts t
  assume "content_texts inflate raw = Inr texts" "t \<in> set texts"
  then show "strip t \<noteq> []" by (rule content_texts_nonblank)
next
  assume "40 \<notin> set content"
  then show "stream_texts content = []" by (rule stream_texts_no_literal)
qed

theorem content_texts_never_raises_witness:
  "content_texts (\<lambda>d. Inl Exception)
     (''stream'' @ [CHR 0x0A] @ ''(Hi) Tj'' @ [CHR 0x0A] @ ''endstream'') = Inr [cps ''Hi'']
   \<and> strip (cps ''Hi'') \<noteq> []
   \<and> 40 \<notin> set (cps ''BT ET'') \<and> stream_texts (cps ''BT ET'') = []"
proof -
  have a: "content_texts (\<lambda>d. Inl Exception)
      (''stream'' @ [CHR 0x0A] @ ''(Hi) Tj'' @ [CHR 0x0A] @ ''endstream'') = Inr [cps ''Hi'']"
    by (rule content_texts_example)
  have b: "40 \<notin> set (cps ''BT ET'')"
    by (simp add: cps_def)
  show ?thesis
    using a b content_texts_never_raises [where inflate = "\<lambda>d. Inl Exception"
        and raw = "''stream'' @ [CHR 0x0A] @ ''(Hi) Tj'' @ [CHR 0x0A] @ ''endstream''"
        and content = "cps ''BT ET''"]
    by auto
qed

section \<open>Properties of the pairer\<close>

lemma lower_Nil: "lower U [] = []"
  by (simp add: lower_def)

lemma lower_Cons: "lower U (c # s) = lower_cp U c @ lower U s"
  by (simp add: lower_def)

lemma lower_append: "lower U (a @ b) = lower U a @ lower U b"
  by (simp add: lower_def)

lemmas text_eval = cps_def lower_Nil lower_Cons lower_cp_def startswith_def is_footer_label_def
  is_date_line_def is_time_line_def is_digit_def

lemma https_not_noise:
  assumes "startswith u (cps ''https://'')"
  shows "\<not> is_noise_line U u"
proof -
  obtain r where u: "u = cps ''https://'' @ r"
    using assms by (auto simp: startswith_def prefix_def)
  show ?thesis
    unfolding u is_noise_line_def by (simp add: text_eval)
qed

lemma url_accumulate_prefix: "prefix url (fst (url_accumulate U url ls))"
proof (induction ls arbitrary: url)
  case Nil
  show ?case by simp
next
  case (Cons nxt rest)
  have "prefix url (url @ nxt)" by simp
  then have "prefix url (fst (url_accumulate U (url @ nxt) rest))"
    using Cons.IH [of "url @ nxt"] by (rule prefix_order.trans)
  then show ?case by simp
qed

lemma url_accumulate_nonempty: "url \<noteq> [] \<Longrightarrow> fst (url_accumulate U url ls) \<noteq> []"
  using url_accumulate_prefix [of url U ls] by auto

lemma pairs_loop_footer:
  "is_footer_label U l \<Longrightarrow> pairs_loop U t (l # rest) = pairs_loop U None rest"
  by (simp add: pairs_loop.simps(2))

lemma pairs_loop_datetime:
  "\<not> is_footer_label U l \<Longrightarrow> is_date_line U l \<or> is_time_line U l \<Longrightarrow>
     pairs_loop U t (l # rest) = pairs_loop U t rest"
  by (simp add: pairs_loop.simps(2))

lemma pairs_loop_url_titled:
  assumes "startswith u (cps ''https://'')" "t \<noteq> []"
  shows "pairs_loop U (Some t) (u # rest) =
           (t, fst (url_accumulate U u rest)) # pairs_loop U None (snd (url_accumulate U u rest))"
proof -
  have "u \<noteq> []" using assms(1) by (auto simp: startswith_def cps_def)
  then have "fst (url_accumulate U u rest) \<noteq> []" by (rule url_accumulate_nonempty)
  then show ?thesis
    using https_not_noise [OF assms(1), of U] assms
    by (simp add: pairs_loop.simps(2) is_noise_line_def)
qed

lemma pairs_loop_url_untitled:
  assumes "startswith u (cps ''https://'')"
  shows "pairs_loop U None (u # rest) = pairs_loop U None (snd (url_accumulate U u rest))"
  using https_not_noise [OF assms, of U] assms
  by (simp add: pairs_loop.simps(2) is_noise_line_def)

text \<open>
  Claim C4, as the code has it. On the lines \<open>Soup\<close>, \<open>https://x.example/\<close>, \<open>Salad\<close>,
  \<open>https://y.example/a\<close>, \<open>b\<close> the pairer produces the single pair
  (\<open>Soup\<close>, \<open>https://x.example/Salad\<close>): the line \<open>Salad\<close> has no whitespace, so it is joined
  onto the first URL, and the second URL block (with \<open>b\<close> joined) has no pending title and is
  discarded. With a title that contains whitespace, \<open>Green Salad\<close>, the pairs are
  (\<open>Soup\<close>, \<open>https://x.example/\<close>) and (\<open>Green Salad\<close>, \<open>https://y.example/ab\<close>).
\<close>

theorem pair_lines_example:
  "pair_lines U [cps ''Soup'', cps ''https://x.example/'', cps ''Salad'',
       cps ''https://y.example/a'', cps ''b'']
     = [(cps ''Soup'', cps ''https://x.example/Salad'')]
   \<and> pair_lines U [cps ''Soup'', cps ''https://x.example/'', cps ''Green Salad'',
       cps ''https://y.example/a'', cps ''b'']
     = [(cps ''Soup'', cps ''https://x.example/''), (cps ''Green Salad'', cps ''https://y.example/ab'')]"
  by (simp add: pair_lines_def pairs_loop.simps(2) text_eval)

text \<open>
  The claim as written fails: the two pairs (\<open>Soup\<close>, \<open>https://x.example/\<close>) and
  (\<open>Salad\<close>, \<open>https://y.example/ab\<close>) are not what the pairer returns on these lines.
\<close>

theorem pair_lines_example_counterexample:
  "pair_lines basic_tables [cps ''Soup'', cps ''https://x.example/'', cps ''Salad'',
       cps ''https://y.example/a'', cps ''b'']
     \<noteq> [(cps ''Soup'', cps ''https://x.example/''), (cps ''Salad'', cps ''https://y.example/ab'')]"
  by (simp add: pair_lines_def pairs_loop.simps(2) text_eval)

text \<open>
  Claim C5, as the code has it. In the outer loop a date-pattern or time-pattern line is
  skipped and leaves the pending title as it is, so a pending title, then such a line, then a
  URL block yields the pair with that title. A footer-label or \<open>page N\<close> line is skipped and
  clears the pending title, so after a pending title and such a line the URL block that follows
  is consumed without a pair.
\<close>

theorem pairs_loop_noise:
  "(\<not> is_footer_label U l \<and> (is_date_line U l \<or> is_time_line U l) \<longrightarrow>
      pairs_loop U t (l # rest) = pairs_loop U t rest
      \<and> (pending \<noteq> [] \<and> startswith u (cps ''https://'') \<longrightarrow>
           pairs_loop U (Some pending) (l # u # others) =
             (pending, fst (url_accumulate U u others))
               # pairs_loop U None (snd (url_accumulate U u others))))
   \<and> (is_footer_label U l \<longrightarrow>
      pairs_loop U t (l # rest) = pairs_loop U None rest
      \<and> (startswith u (cps ''https://'') \<longrightarrow>
           pairs_loop U (Some pending) (l # u # others) =
             pairs_loop U None (snd (url_accumulate U u others))))"
  by (simp add: pairs_loop_footer pairs_loop_datetime pairs_loop_url_titled
      pairs_loop_url_untitled)

theorem pairs_loop_noise_witness:
  "pairs_loop basic_tables (Some (cps ''Soup'')) [cps ''12:30'', cps ''https://x.example/'']
     = [(cps ''Soup'', cps ''https://x.example/'')]
   \<and> pairs_loop basic_tables (Some (cps ''Soup'')) [cps ''Recipes'', cps ''https://x.example/'']
     = []"
  using pairs_loop_noise [where U = basic_tables and l = "cps ''12:30''" and pending = "cps ''Soup''"
      and u = "cps ''https://x.example/''" and others = "[]" and t = None and rest = "[]"]
    pairs_loop_noise [where U = basic_tables and l = "cps ''Recipes''" and pending = "cps ''Soup''"
      and u = "cps ''https://x.example/''" and others = "[]" and t = None and rest = "[]"]
  by (simp add: text_eval)

text \<open>
  The claim as written fails: with the footer label \<open>Recipes\<close> between the title and the URL
  no pair is produced, while the same lines without the footer label give the pair.
\<close>

theorem pairs_loop_noise_counterexample:
  "pair_lines basic_tables [cps ''Soup'', cps ''Recipes'', cps ''https://x.example/''] = []
   \<and> pair_lines basic_tables
        (filter (\<lambda>l. \<not> is_noise_line basic_tables l)
           [cps ''Soup'', cps ''Recipes'', cps ''https://x.example/''])
      = [(cps ''Soup'', cps ''https://x.example/'')]"
  by (simp add: pair_lines_def pairs_loop.simps(2) is_noise_line_def text_eval)

section \<open>Properties of the segmenter\<close>

lemmas seg_eval = bullet_match_def is_space_def dot_plus_end_def strip_def numbered_line_def
  is_ascii_digit_def INGREDIENT_STOPWORDS_def

lemma find_start_example:
  "find_start U [cps ''Ingredients:'', cps ''- 2 cups flour'', cps ''- 1 egg'', cps ''Method'',
     cps ''Mix well''] = 1"
  by (simp add: find_start_def INGREDIENT_KEYWORDS_def text_eval enumerate_eq_zip)

lemma ingredients_loop_example:
  "ingredients_loop U [cps ''- 2 cups flour'', cps ''- 1 egg'', cps ''Method'', cps ''Mix well'']
     (Suc 0) [] = ([cps ''2 cups flour'', cps ''1 egg''], 3)"
  by (simp add: ingredients_loop.simps(2) seg_eval text_eval split del: if_split)

text \<open>
  Claim C3. On the lines \<open>Ingredients:\<close>, \<open>- 2 cups flour\<close>, \<open>- 1 egg\<close>, \<open>Method\<close>, \<open>Mix well\<close>
  the ingredient-section extraction returns the ingredients \<open>2 cups flour\<close> and \<open>1 egg\<close> with
  the stop index 3, and line 3 is \<open>Method\<close>.
\<close>

theorem extract_ingredients_section_example:
  "extract_ingredients_section U
     [cps ''Ingredients:'', cps ''- 2 cups flour'', cps ''- 1 egg'', cps ''Method'', cps ''Mix well'']
     = ([cps ''2 cups flour'', cps ''1 egg''], 3)
   \<and> [cps ''Ingredients:'', cps ''- 2 cups flour'', cps ''- 1 egg'', cps ''Method'',
        cps ''Mix well''] ! 3 = cps ''Method''"
  by (simp add: extract_ingredients_section_def find_start_example ingredients_loop_example)

section \<open>Properties of the classifier\<close>

lemmas kw_eval = keyword_in_text_def keyword_at_def boundary_def is_word_def

lemma tagged_subset: "set (tagged U text table) \<subseteq> fst ` set table"
  by (auto simp: tagged_def)

lemma tagged_member:
  "(tag, kws) \<in> set table \<Longrightarrow> any_keyword U text kws \<Longrightarrow> tag \<in> set (tagged U text table)"
  by (force simp: tagged_def)

lemma vegetarian_not_table_tag:
  "cps ''vegetarian'' \<notin> fst ` set MEAL_KEYWORDS" "cps ''vegetarian'' \<notin> fst ` set COURSE_KEYWORDS"
  by (simp_all add: MEAL_KEYWORDS_def COURSE_KEYWORDS_def cps_def)

lemma vegetarian_not_tagged:
  "cps ''vegetarian'' \<notin> set (tagged U text MEAL_KEYWORDS)"
  "cps ''vegetarian'' \<notin> set (tagged U text COURSE_KEYWORDS)"
  using tagged_subset [of U "text" MEAL_KEYWORDS] tagged_subset [of U "text" COURSE_KEYWORDS]
    vegetarian_not_table_tag by blast+

lemma vegetarian_other_tags:
  "cps ''vegetarian'' \<noteq> cps ''breakfast''" "cps ''vegetarian'' \<noteq> cps ''dessert''"
  "cps ''vegetarian'' \<noteq> cps ''drink''" "cps ''vegetarian'' \<noteq> cps ''roast''"
  "cps ''vegetarian'' \<noteq> cps ''grill''" "cps ''vegetarian'' \<noteq> cps ''vegan''"
  by (simp_all add: cps_def)

lemma vegetarian_iff:
  "cps ''vegetarian'' \<in> set (infer_tags U ttl ings)
     \<longleftrightarrow> \<not> any_keyword U (blob U ttl ings) MEAT_KEYWORDS"
  by (simp add: infer_tags_def Let_def vegetarian_not_tagged vegetarian_other_tags)

lemma course_tag:
  "(tag, kws) \<in> set COURSE_KEYWORDS \<Longrightarrow> any_keyword U (blob U ttl ings) kws
     \<Longrightarrow> tag \<in> set (infer_tags U ttl ings)"
  by (simp add: infer_tags_def Let_def tagged_member)

lemma blob_beef_stew:
  "blob U (cps ''Beef Stew'') ings = cps ''beef stew '' @ lower U (join [32] ings)"
  by (simp add: blob_def lower_append text_eval)

lemma blob_garden_salad:
  "blob U (cps ''Garden Salad'') ings = cps ''garden salad '' @ lower U (join [32] ings)"
  by (simp add: blob_def lower_append text_eval)

lemma beef_found: "keyword_in_text U (cps ''beef stew '' @ r) (cps ''beef'')"
  by (simp add: cps_def kw_eval)

lemma stew_found: "keyword_in_text U (cps ''beef stew '' @ r) (cps ''stew'')"
  by (simp add: cps_def kw_eval)

lemma salad_found: "keyword_in_text U (cps ''garden salad '' @ r) (cps ''salad'')"
  by (simp add: cps_def kw_eval)

lemma beef_stew_tags:
  "cps ''stew'' \<in> set (infer_tags U (cps ''Beef Stew'') ings)
   \<and> cps ''vegetarian'' \<notin> set (infer_tags U (cps ''Beef Stew'') ings)"
proof
  have "any_keyword U (blob U (cps ''Beef Stew'') ings) (map cps [''stew'', ''braise''])"
    using stew_found by (simp add: any_keyword_def blob_beef_stew)
  moreover have "(cps ''stew'', map cps [''stew'', ''braise'']) \<in> set COURSE_KEYWORDS"
    by (simp add: COURSE_KEYWORDS_def)
  ultimately show "cps ''stew'' \<in> set (infer_tags U (cps ''Beef Stew'') ings)"
    using course_tag by blast
  have "cps ''beef'' \<in> set MEAT_KEYWORDS"
    by (simp add: MEAT_KEYWORDS_def)
  then have "any_keyword U (blob U (cps ''Beef Stew'') ings) MEAT_KEYWORDS"
    using beef_found unfolding any_keyword_def blob_beef_stew by blast
  then show "cps ''vegetarian'' \<notin> set (infer_tags U (cps ''Beef Stew'') ings)"
    by (simp add: vegetarian_iff)
qed

lemma garden_salad_lunch:
  assumes "explicit_meal_types U (blob U (cps ''Garden Salad'') ings) (map (lower U) tgs) = []"
  shows "infer_meal_types U (cps ''Garden Salad'') ings tgs = [cps ''lunch'']"
  using assms salad_found by (simp add: infer_meal_types_def Let_def blob_garden_salad)

lemma garden_salad_no_meat:
  "\<not> any_keyword U (blob U (cps ''Garden Salad'') []) MEAT_KEYWORDS"
  by (simp add: any_keyword_def blob_def text_eval kw_eval MEAT_KEYWORDS_def)

lemma garden_salad_explicit:
  "explicit_meal_types U (blob U (cps ''Garden Salad'') [])
     (map (lower U) [cps ''salad'', cps ''vegetarian'']) = []"
  by (simp add: explicit_meal_types_def tagged_def any_keyword_def blob_def text_eval kw_eval
      MEAL_KEYWORDS_def)

lemma garden_salad_meal:
  "infer_meal_types U (cps ''Garden Salad'') [] [cps ''salad'', cps ''vegetarian''] = [cps ''lunch'']"
  using garden_salad_lunch [OF garden_salad_explicit] .

lemma garden_salad_plain:
  "infer_tags U (cps ''Garden Salad'') [] = [cps ''salad'', cps ''vegetarian'']"
  by (simp add: infer_tags_def Let_def tagged_def any_keyword_def blob_def text_eval kw_eval
      MEAL_KEYWORDS_def COURSE_KEYWORDS_def MEAT_KEYWORDS_def BREAKFAST_KEYWORDS_def
      DESSERT_KEYWORDS_def DRINK_KEYWORDS_def)

lemma short_ribbon_meat:
  "any_keyword U (blob U (cps ''Short Ribbon Pasta'') []) MEAT_KEYWORDS"
proof -
  have "cps ''short rib'' \<in> set MEAT_KEYWORDS"
    by (simp add: MEAT_KEYWORDS_def)
  moreover have "keyword_in_text U (blob U (cps ''Short Ribbon Pasta'') []) (cps ''short rib'')"
    by (simp add: blob_def text_eval kw_eval)
  ultimately show ?thesis
    unfolding any_keyword_def by blast
qed

lemma short_ribbon_no_boundary_match:
  "\<not> (\<exists>k \<in> set MEAT_KEYWORDS.
        word_boundary_match U (blob U (cps ''Short Ribbon Pasta'') []) k)"
  by (simp add: MEAT_KEYWORDS_def word_boundary_match_def blob_def text_eval kw_eval)

text \<open>
  Claim C6, as the code has it. The tag \<open>vegetarian\<close> is in the output of \<open>infer_tags\<close> if and
  only if no keyword of the meat keyword set occurs in the lower-cased blob of title and
  ingredients, where a keyword without a space occurs when it matches between word boundaries
  with an optional plural \<open>s\<close>, and a keyword with a space (\<open>short rib\<close>, \<open>short ribs\<close>) occurs
  when it is a substring of the blob. For the title \<open>Beef Stew\<close> and any ingredients the tags
  contain \<open>stew\<close> and not \<open>vegetarian\<close>. For the title \<open>Garden Salad\<close>, when no meat keyword
  occurs the tags contain \<open>vegetarian\<close>, and when no explicit meal-type keyword or tag matched
  the meal types are exactly \<open>lunch\<close>; with no ingredients the tags are \<open>salad\<close> and
  \<open>vegetarian\<close> and the meal types are \<open>lunch\<close>.
\<close>

theorem infer_tags_vegetarian:
  "(cps ''vegetarian'' \<in> set (infer_tags U ttl ings)
      \<longleftrightarrow> \<not> (\<exists>k \<in> set MEAT_KEYWORDS. keyword_in_text U (blob U ttl ings) k))
   \<and> keyword_in_text U t k =
        (if 32 \<in> set k then contains t k else word_boundary_match U t k)
   \<and> cps ''stew'' \<in> set (infer_tags U (cps ''Beef Stew'') ings)
   \<and> cps ''vegetarian'' \<notin> set (infer_tags U (cps ''Beef Stew'') ings)
   \<and> (\<not> (\<exists>k \<in> set MEAT_KEYWORDS. keyword_in_text U (blob U (cps ''Garden Salad'') ings) k)
        \<longrightarrow> cps ''vegetarian'' \<in> set (infer_tags U (cps ''Garden Salad'') ings))
   \<and> (explicit_meal_types U (blob U (cps ''Garden Salad'') ings) (map (lower U) tgs) = []
        \<longrightarrow> infer_meal_types U (cps ''Garden Salad'') ings tgs = [cps ''lunch''])
   \<and> infer_tags U (cps ''Garden Salad'') [] = [cps ''salad'', cps ''vegetarian'']
   \<and> infer_meal_types U (cps ''Garden Salad'') [] [cps ''salad'', cps ''vegetarian'']
        = [cps ''lunch'']"
proof (intro conjI impI)
  show "cps ''vegetarian'' \<in> set (infer_tags U ttl ings)
      \<longleftrightarrow> \<not> (\<exists>k \<in> set MEAT_KEYWORDS. keyword_in_text U (blob U ttl ings) k)"
    using vegetarian_iff [of U ttl ings] by (simp add: any_keyword_def)
  show "keyword_in_text U t k =
      (if 32 \<in> set k then contains t k else word_boundary_match U t k)"
    by (simp add: keyword_in_text_def word_boundary_match_def)
  show "cps ''stew'' \<in> set (infer_tags U (cps ''Beef Stew'') ings)"
    using beef_stew_tags by blast
  show "cps ''vegetarian'' \<notin> set (infer_tags U (cps ''Beef Stew'') ings)"
    using beef_stew_tags by blast
  show "infer_tags U (cps ''Garden Salad'') [] = [cps ''salad'', cps ''vegetarian'']"
    by (rule garden_salad_plain)
  show "infer_meal_types U (cps ''Garden Salad'') [] [cps ''salad'', cps ''vegetarian'']
      = [cps ''lunch'']"
    by (rule garden_salad_meal)
next
  assume "\<not> (\<exists>k \<in> set MEAT_KEYWORDS. keyword_in_text U (blob U (cps ''Garden Salad'') ings) k)"
  then show "cps ''vegetarian'' \<in> set (infer_tags U (cps ''Garden Salad'') ings)"
    using vegetarian_iff [of U "cps ''Garden Salad''" ings] by (simp add: any_keyword_def)
next
  assume "explicit_meal_types U (blob U (cps ''Garden Salad'') ings) (map (lower U) tgs) = []"
  then show "infer_meal_types U (cps ''Garden Salad'') ings tgs = [cps ''lunch'']"
    by (rule garden_salad_lunch)
qed

theorem infer_tags_vegetarian_witness:
  "cps ''vegetarian'' \<in> set (infer_tags basic_tables (cps ''Garden Salad'') [])
   \<and> infer_meal_types basic_tables (cps ''Garden Salad'') [] [cps ''salad'', cps ''vegetarian'']
        = [cps ''lunch'']
   \<and> \<not> (\<exists>k \<in> set MEAT_KEYWORDS.
          keyword_in_text basic_tables (blob basic_tables (cps ''Garden Salad'') []) k)
   \<and> explicit_meal_types basic_tables (blob basic_tables (cps ''Garden Salad'') [])
        (map (lower basic_tables) [cps ''salad'', cps ''vegetarian'']) = []"
proof -
  have a: "\<not> (\<exists>k \<in> set MEAT_KEYWORDS.
      keyword_in_text basic_tables (blob basic_tables (cps ''Garden Salad'') []) k)"
    using garden_salad_no_meat [of basic_tables] by (simp add: any_keyword_def)
  have b: "explicit_meal_types basic_tables (blob basic_tables (cps ''Garden Salad'') [])
      (map (lower basic_tables) [cps ''salad'', cps ''vegetarian'']) = []"
    by (rule garden_salad_explicit)
  show ?thesis
    using a b infer_tags_vegetarian [where U = basic_tables and ings = "[]"
        and tgs = "[cps ''salad'', cps ''vegetarian'']"]
    by blast
qed

text \<open>
  The claim as written fails when every keyword is matched between word boundaries: in
  \<open>Short Ribbon Pasta\<close> no meat keyword matches that way, yet the tags do not contain
  \<open>vegetarian\<close>, because the keyword \<open>short rib\<close> is a substring of the blob.
\<close>

theorem infer_tags_vegetarian_counterexample:
  "\<not> (\<exists>k \<in> set MEAT_KEYWORDS.
        word_boundary_match basic_tables (blob basic_tables (cps ''Short Ribbon Pasta'') []) k)
   \<and> cps ''vegetarian'' \<notin> set (infer_tags basic_tables (cps ''Short Ribbon Pasta'') [])"
  using short_ribbon_no_boundary_match [of basic_tables] short_ribbon_meat [of basic_tables]
  by (simp add: vegetarian_iff)

section \<open>Properties of the assembler\<close>

lemma to_ascii_preview_length: "length (take 280 (to_ascii L s)) \<le> 280"
  by simp

lemma assemble_entry_ingredients:
  "ingredients (assemble_entry U L t u h d img)
     = map (to_ascii L) (fst (extract_recipe_content U d))"
  by (simp add: assemble_entry_def Let_def split: prod.splits)

lemma assemble_entry_notes:
  "notes (assemble_entry U L t u h d img)
     = (if fst (extract_recipe_content U d) = []
        then Some (cps ''Ingredients not detected automatically.'') else None)"
  by (simp add: assemble_entry_def Let_def split: prod.splits)

lemma assemble_entry_preview:
  "descriptionPreview (assemble_entry U L t u h d img)
     = (if fst (extract_recipe_content U d) = []
        then Some (take 280 (to_ascii L (join [32] (take 4 (splitlines d))))) else None)"
  by (simp add: assemble_entry_def Let_def split: prod.splits)

lemma assemble_entry_degraded_ok: "degraded_ok (assemble_entry U L t u h d img)"
  by (simp add: degraded_ok_def assemble_entry_ingredients assemble_entry_notes
      assemble_entry_preview)

lemma process_pair_degraded_ok: "process_pair U L pair = Inr (Inr e) \<Longrightarrow> degraded_ok e"
  by (auto simp: process_pair_def assemble_entry_degraded_ok
      split: prod.splits option.splits sum.splits if_splits)

lemma main_loop_degraded_ok:
  "\<forall>e \<in> set results. degraded_ok e \<Longrightarrow>
   main_loop U L pairs results failures = Inr (rs, fs) \<Longrightarrow>
     \<forall>e \<in> set rs. degraded_ok e"
proof (induction pairs arbitrary: results failures)
  case Nil
  then show ?case by simp
next
  case (Cons pair pairs)
  show ?case
  proof (cases "process_pair U L pair")
    case (Inl e)
    then show ?thesis using Cons.prems(2) by simp
  next
    case (Inr x)
    show ?thesis
    proof (cases x)
      case (Inl f)
      then have "main_loop U L pairs results (failures @ [f]) = Inr (rs, fs)"
        using Cons.prems(2) Inr by simp
      with Cons.prems(1) show ?thesis by (rule Cons.IH)
    next
      case (Inr entry)
      then have "degraded_ok entry"
        using \<open>process_pair U L pair = Inr x\<close> process_pair_degraded_ok by blast
      then have ok: "\<forall>e \<in> set (results @ [entry]). degraded_ok e"
        using Cons.prems(1) by simp
      have "main_loop U L pairs (results @ [entry]) failures = Inr (rs, fs)"
        using Cons.prems(2) Inr \<open>process_pair U L pair = Inr x\<close> by simp
      with ok show ?thesis by (rule Cons.IH)
    qed
  qed
qed

lemma process_pair_raises:
  "(\<exists>e. process_pair U L (t, u) = Inl e) \<longleftrightarrow> (\<exists>e. curl L u = Inl e)"
  by (auto simp: process_pair_def fetch_html_def split: prod.splits option.splits sum.splits if_splits)

lemma main_loop_lists:
  "\<forall>p \<in> set pairs. \<exists>x. process_pair U L p = Inr x \<Longrightarrow>
   main_loop U L pairs results failures =
     Inr (results @ [e. Inr (Inr e) \<leftarrow> map (process_pair U L) pairs],
          failures @ [f. Inr (Inl f) \<leftarrow> map (process_pair U L) pairs])"
proof (induction pairs arbitrary: results failures)
  case Nil
  show ?case by simp
next
  case (Cons pair pairs)
  then obtain x where x: "process_pair U L pair = Inr x" by auto
  have rest: "\<forall>p \<in> set pairs. \<exists>x. process_pair U L p = Inr x"
    using Cons.prems by simp
  show ?case
    using x Cons.IH [OF rest] by (cases x) simp_all
qed

lemma main_loop_aborts:
  "process_pair U L p = Inl e \<Longrightarrow> p \<in> set pairs \<Longrightarrow>
     \<exists>e'. main_loop U L pairs results failures = Inl e'"
proof (induction pairs arbitrary: results failures)
  case Nil
  then show ?case by simp
next
  case (Cons pair pairs)
  show ?case
  proof (cases "process_pair U L pair")
    case (Inl e')
    then show ?thesis by simp
  next
    case (Inr x)
    then have "p \<in> set pairs" using Cons.prems by auto
    then show ?thesis
      using Inr Cons.IH [OF Cons.prems(1)] by (cases x) simp_all
  qed
qed

lemma sum_list_count:
  "\<forall>y \<in> set xs. \<exists>x. y = Inr x \<Longrightarrow>
     length [e. Inr (Inr e) \<leftarrow> xs] + length [f. Inr (Inl f) \<leftarrow> xs] = length xs"
proof (induction xs)
  case Nil
  show ?case by simp
next
  case (Cons y ys)
  then obtain x where "y = Inr x" by auto
  then show ?case using Cons by (cases x) simp_all
qed

lemma assemble_counts_without_raise:
  assumes "\<forall>p \<in> set pairs. \<exists>x. process_pair U L p = Inr x"
  shows "\<exists>rs fs. assemble U L pairs = Inr (rs, fs) \<and> length rs + length fs = length pairs"
proof -
  have "\<forall>y \<in> set (map (process_pair U L) pairs). \<exists>x. y = Inr x"
    using assms by auto
  then have "length [e. Inr (Inr e) \<leftarrow> map (process_pair U L) pairs]
      + length [f. Inr (Inl f) \<leftarrow> map (process_pair U L) pairs] = length pairs"
    using sum_list_count [of "map (process_pair U L) pairs"] by simp
  then show ?thesis
    using main_loop_lists [OF assms, of "[]" "[]"] by (simp add: assemble_def)
qed

lemma test_page_description:
  "extract_meta_value test_library (cps test_page) (cps ''og:description'') = Some (cps ''Hello'')"
  by (simp add: extract_meta_value_def meta_at_def property_at_def content_at_def test_page_def
      test_library_def ci_eq_def ascii_fold_def is_space_def cps_def split del: if_split)

lemma test_page_image:
  "extract_meta_value test_library (cps test_page) (cps ''og:image'') = Some (cps ''i.png'')"
  by (simp add: extract_meta_value_def meta_at_def property_at_def content_at_def test_page_def
      test_library_def ci_eq_def ascii_fold_def is_space_def cps_def split del: if_split)

lemma test_run:
  "main_loop basic_tables test_library [(cps ''Soup'', cps ''https://x.example/'')] [] []
     = Inr ([assemble_entry basic_tables test_library (cps ''Soup'') (cps ''https://x.example/'')
               (cps test_page) (cps ''Hello'') (cps ''i.png'')], [])"
proof -
  have f: "fetch_html test_library (cps ''https://x.example/'') = Inr (Some (cps test_page))"
    by (simp add: fetch_html_def test_library_def cps_def)
  have n: "cps test_page \<noteq> []" "cps ''Hello'' \<noteq> []" "cps ''i.png'' \<noteq> []"
    by (simp_all add: test_page_def cps_def)
  have pp: "process_pair basic_tables test_library (cps ''Soup'', cps ''https://x.example/'')
      = Inr (Inr (assemble_entry basic_tables test_library (cps ''Soup'')
          (cps ''https://x.example/'') (cps test_page) (cps ''Hello'') (cps ''i.png'')))"
    using n by (simp add: process_pair_def f test_page_description test_page_image or_else_def
        truthy_def)
  show ?thesis
    by (subst main_loop.simps, subst pp) simp
qed

lemma hello_not_ingredients: "fst (extract_recipe_content U (cps ''Hello'')) = []"
  by (simp add: extract_recipe_content_def prepare_lines_def extract_ingredients_section_def
      find_start_def INGREDIENT_KEYWORDS_def enumerate_eq_zip ingredients_loop.simps(2)
      SUBHEADING_PREFIXES_def MEASUREMENT_TOKENS_def token_at_def boundary_def is_word_def
      fallback_tokens_def ci_eq_def ascii_fold_def seg_eval text_eval
      split del: if_split)

text \<open>
  Claim C1. When ingredient extraction on the description returns the empty list, the entry
  that the assembler builds has \<open>notes\<close> set to the fixed advisory text and
  \<open>descriptionPreview\<close> set to the first 280 characters of the ASCII normalization of the first
  four lines of the raw description joined by spaces, so its length is at most 280; and every
  record that a run of the loop emits with an empty ingredient list has both fields set, with a
  preview of at most 280 characters.
\<close>

theorem degraded_record:
  "(fst (extract_recipe_content U d) = [] \<longrightarrow>
      ingredients (assemble_entry U L t u h d img) = []
      \<and> notes (assemble_entry U L t u h d img)
          = Some (cps ''Ingredients not detected automatically.'')
      \<and> descriptionPreview (assemble_entry U L t u h d img)
          = Some (take 280 (to_ascii L (join [32] (take 4 (splitlines d)))))
      \<and> length (take 280 (to_ascii L (join [32] (take 4 (splitlines d))))) \<le> 280)
   \<and> (\<forall>results failures.
        assemble U L pairs = Inr (results, failures) \<longrightarrow>
          (\<forall>e \<in> set results.
             ingredients e = [] \<longrightarrow>
               notes e \<noteq> None \<and> (\<exists>p. descriptionPreview e = Some p \<and> length p \<le> 280)))"
proof
  show "fst (extract_recipe_content U d) = [] \<longrightarrow>
      ingredients (assemble_entry U L t u h d img) = []
      \<and> notes (assemble_entry U L t u h d img)
          = Some (cps ''Ingredients not detected automatically.'')
      \<and> descriptionPreview (assemble_entry U L t u h d img)
          = Some (take 280 (to_ascii L (join [32] (take 4 (splitlines d)))))
      \<and> length (take 280 (to_ascii L (join [32] (take 4 (splitlines d))))) \<le> 280"
    by (simp add: assemble_entry_ingredients assemble_entry_notes assemble_entry_preview)
  show "\<forall>results failures.
        assemble U L pairs = Inr (results, failures) \<longrightarrow>
          (\<forall>e \<in> set results.
             ingredients e = [] \<longrightarrow>
               notes e \<noteq> None \<and> (\<exists>p. descriptionPreview e = Some p \<and> length p \<le> 280))"
  proof (intro allI impI)
    fix results failures
    assume "assemble U L pairs = Inr (results, failures)"
    then have "main_loop U L pairs [] [] = Inr (results, failures)"
      by (simp add: assemble_def)
    then have "\<forall>e \<in> set results. degraded_ok e"
      by (rule main_loop_degraded_ok [rotated]) simp
    then show "\<forall>e \<in> set results.
        ingredients e = [] \<longrightarrow>
          notes e \<noteq> None \<and> (\<exists>p. descriptionPreview e = Some p \<and> length p \<le> 280)"
      by (simp add: degraded_ok_def)
  qed
qed

theorem degraded_record_witness:
  "fst (extract_recipe_content basic_tables (cps ''Hello'')) = []
   \<and> notes (assemble_entry basic_tables plain_library (cps ''Soup'') (cps ''https://x.example/'')
        (cps ''<html>'') (cps ''Hello'') (cps ''https://x.example/i.png''))
       = Some (cps ''Ingredients not detected automatically.'')
   \<and> descriptionPreview (assemble_entry basic_tables plain_library (cps ''Soup'')
        (cps ''https://x.example/'') (cps ''<html>'') (cps ''Hello'')
        (cps ''https://x.example/i.png''))
       = Some (cps ''Hello'')
   \<and> assemble basic_tables test_library [(cps ''Soup'', cps ''https://x.example/'')]
       = Inr ([assemble_entry basic_tables test_library (cps ''Soup'') (cps ''https://x.example/'')
                 (cps test_page) (cps ''Hello'') (cps ''i.png'')], [])
   \<and> ingredients (assemble_entry basic_tables test_library (cps ''Soup'')
        (cps ''https://x.example/'') (cps test_page) (cps ''Hello'') (cps ''i.png'')) = []
   \<and> notes (assemble_entry basic_tables test_library (cps ''Soup'') (cps ''https://x.example/'')
        (cps test_page) (cps ''Hello'') (cps ''i.png'')) \<noteq> None
   \<and> (\<exists>p. descriptionPreview (assemble_entry basic_tables test_library (cps ''Soup'')
          (cps ''https://x.example/'') (cps test_page) (cps ''Hello'') (cps ''i.png'')) = Some p
        \<and> length p \<le> 280)"
proof -
  let ?E = "assemble_entry basic_tables test_library (cps ''Soup'') (cps ''https://x.example/'')
      (cps test_page) (cps ''Hello'') (cps ''i.png'')"
  have h: "fst (extract_recipe_content basic_tables (cps ''Hello'')) = []"
    by (rule hello_not_ingredients)
  have p: "take 280 (to_ascii plain_library (join [32] (take 4 (splitlines (cps ''Hello'')))))
      = cps ''Hello''"
    by (simp add: to_ascii_def plain_library_def splitlines_def is_linebreak_def cps_def)
  have run: "assemble basic_tables test_library [(cps ''Soup'', cps ''https://x.example/'')]
      = Inr ([?E], [])"
    by (simp only: assemble_def test_run)
  have empty: "ingredients ?E = []"
    using h by (simp add: assemble_entry_ingredients)
  note entry = degraded_record [where U = basic_tables and L = plain_library
      and d = "cps ''Hello''" and t = "cps ''Soup''" and u = "cps ''https://x.example/''"
      and h = "cps ''<html>''" and img = "cps ''https://x.example/i.png''" and pairs = "[]"]
  note loop = degraded_record [where U = basic_tables and L = test_library
      and d = "cps ''Hello''" and t = "cps ''Soup''" and u = "cps ''https://x.example/''"
      and h = "cps ''<html>''" and img = "cps ''https://x.example/i.png''"
      and pairs = "[(cps ''Soup'', cps ''https://x.example/'')]"]
  have "notes ?E \<noteq> None \<and> (\<exists>p. descriptionPreview ?E = Some p \<and> length p \<le> 280)"
    using loop run empty by simp
  then show ?thesis
    using h p run empty entry by simp
qed

lemma nul_pdf_pairs:
  "parse_pdf_pairs U (\<lambda>d. Inl Exception) nul_pdf
     = Inr [(cps ''Soup'', cps ''https://a'' @ [0] @ cps ''b'')]"
  by (simp add: parse_pdf_pairs_def nul_pdf_def content_texts_Inr find_all.simps(2) stream_at_def
      stream_texts_def tj_array_at_def tj_string_at_def show_operator_def paren_at_def
      decode_plain decode_escape is_octal_def int8_def take_octal_2 text_lines_def strip_def
      is_space_def pair_lines_def pairs_loop.simps(2) text_eval
      split del: if_split)

lemma nul_fetch_raises:
  "process_pair U test_library (cps ''Soup'', cps ''https://a'' @ [0] @ cps ''b'') = Inl Exception"
  by (simp add: process_pair_def fetch_html_def test_library_def)

lemma nul_run_aborts:
  "main_loop U test_library [(cps ''Soup'', cps ''https://a'' @ [0] @ cps ''b'')] [] []
     = Inl Exception"
  by (simp only: main_loop.simps nul_fetch_raises sum.case)

text \<open>
  Claim C2 on the code. When no fetch raises, every pair gives exactly one record or one
  failure record and their numbers add up to the number of pairs
  (\<open>assemble_counts_without_raise\<close>). But \<open>subprocess.run\<close> is not caught: on the bytes
  \<open>nul_pdf\<close> the pairer finds the one pair \<open>Soup\<close> with a URL that holds a null character,
  the fetch of that URL raises, and the run ends with the exception, with no record and no
  failure record written for the pair.
\<close>

theorem main_aborts_on_fetch_exception:
  "parse_pdf_pairs basic_tables (\<lambda>d. Inl Exception) nul_pdf
     = Inr [(cps ''Soup'', cps ''https://a'' @ [0] @ cps ''b'')]
   \<and> curl test_library (cps ''https://a'' @ [0] @ cps ''b'') = Inl Exception
   \<and> main basic_tables (\<lambda>d. Inl Exception) test_library nul_pdf = Inl Exception"
proof (intro conjI)
  show "parse_pdf_pairs basic_tables (\<lambda>d. Inl Exception) nul_pdf
      = Inr [(cps ''Soup'', cps ''https://a'' @ [0] @ cps ''b'')]"
    by (rule nul_pdf_pairs)
  show "curl test_library (cps ''https://a'' @ [0] @ cps ''b'') = Inl Exception"
    by (simp add: test_library_def)
  show "main basic_tables (\<lambda>d. Inl Exception) test_library nul_pdf = Inl Exception"
    by (simp only: main_def nul_pdf_pairs sum.case assemble_def nul_run_aborts)
qed

section \<open>Properties of the meta-tag resolver\<close>

lemma try_candidates_first:
  "\<forall>p \<in> set pre. candidate_content L snippet p = None \<Longrightarrow>
   candidate_content L snippet cand = Some c \<Longrightarrow>
   try_candidates L snippet base (pre @ cand # post) = Some (urljoin L base c)"
  by (induction pre) simp_all

lemma try_candidates_none:
  "\<forall>p \<in> set cs. candidate_content L snippet p = None \<Longrightarrow>
   try_candidates L snippet base cs = None"
  by (induction cs) simp_all

lemmas resolver_eval = candidate_content_def meta_regex_search_def tag_at_def attr_assign_def
  close_tag_def quoted_at_def extract_content_def ci_eq_def ascii_fold_def is_space_def strip_def
  plain_library_def og_tag_def twitter_tag_def cps_def

lemma og_then_twitter:
  "candidate_content plain_library (og_tag @ twitter_tag) (cps ''property'', cps ''og:image:secure_url'') = None"
  "candidate_content plain_library (og_tag @ twitter_tag) (cps ''property'', cps ''og:image:url'') = None"
  "candidate_content plain_library (og_tag @ twitter_tag) (cps ''property'', cps ''og:image'') = Some (cps ''o.png'')"
  by (simp_all add: resolver_eval split del: if_split)

lemma twitter_then_og:
  "candidate_content plain_library (twitter_tag @ og_tag) (cps ''property'', cps ''og:image:secure_url'') = None"
  "candidate_content plain_library (twitter_tag @ og_tag) (cps ''property'', cps ''og:image:url'') = None"
  "candidate_content plain_library (twitter_tag @ og_tag) (cps ''property'', cps ''og:image'') = Some (cps ''o.png'')"
  by (simp_all add: resolver_eval split del: if_split)

lemma short_take: "take 200000 (og_tag @ twitter_tag) = og_tag @ twitter_tag"
  "take 200000 (twitter_tag @ og_tag) = twitter_tag @ og_tag"
  by (simp_all add: og_tag_def twitter_tag_def cps_def)

lemma tag_at_space: "tag_at name attr vs (32 # t) = None" "tag_at name attr vs [] = None"
  by (simp_all add: tag_at_def ci_eq_def ascii_fold_def)

lemma leftmost_spaces:
  "\<forall>c \<in> set pad. c = 32 \<Longrightarrow> leftmost (tag_at name attr vs) pad = None"
  by (induction pad) (simp_all add: tag_at_space)

lemma snippet_padded:
  "take 200000 (twitter_tag @ replicate 200000 32 @ og_tag) = twitter_tag @ replicate 199953 32"
proof -
  have "length twitter_tag = 47"
    by (simp add: twitter_tag_def cps_def)
  then show ?thesis by simp
qed

lemma padded_candidates:
  assumes "\<forall>c \<in> set pad. c = 32"
  shows "candidate_content plain_library (twitter_tag @ pad) (cps ''property'', cps ''og:image:secure_url'') = None"
    and "candidate_content plain_library (twitter_tag @ pad) (cps ''property'', cps ''og:image:url'') = None"
    and "candidate_content plain_library (twitter_tag @ pad) (cps ''property'', cps ''og:image'') = None"
    and "candidate_content plain_library (twitter_tag @ pad) (cps ''name'', cps ''og:image'') = None"
  using assms by (simp_all add: resolver_eval leftmost_spaces split del: if_split)

lemma padded_twitter:
  assumes "\<forall>c \<in> set pad. c = 32"
  shows "candidate_content plain_library (twitter_tag @ pad) (cps ''property'', cps ''twitter:image'')
     = Some (cps ''t.png'')"
  using assms by (simp add: resolver_eval leftmost_spaces split del: if_split)

lemma padded_preview:
  "extract_preview_from_html plain_library (twitter_tag @ replicate 200000 32 @ og_tag) base
     = Some (cps ''t.png'')"
proof -
  let ?s = "twitter_tag @ replicate 199953 32"
  have pad: "\<forall>c \<in> set (replicate 199953 (32::nat)). c = 32" by simp
  have "try_candidates plain_library ?s base
      ([(cps ''property'', cps ''og:image:secure_url''), (cps ''property'', cps ''og:image:url''),
        (cps ''property'', cps ''og:image''), (cps ''name'', cps ''og:image'')]
       @ (cps ''property'', cps ''twitter:image'')
       # [(cps ''name'', cps ''twitter:image''), (cps ''property'', cps ''twitter:image:src''),
          (cps ''name'', cps ''twitter:image:src''), (cps ''itemprop'', cps ''image''),
          (cps ''name'', cps ''thumbnail'')])
      = Some (urljoin plain_library base (cps ''t.png''))"
    using padded_candidates [OF pad] padded_twitter [OF pad]
    by (intro try_candidates_first) simp_all
  then have "try_candidates plain_library ?s base META_CANDIDATES = Some (cps ''t.png'')"
    by (simp add: META_CANDIDATES_def plain_library_def)
  then show ?thesis
    unfolding extract_preview_from_html_def snippet_padded Let_def by simp
qed

lemma preview_first_candidate:
  assumes "META_CANDIDATES = pre @ cand # post"
    and "\<forall>p \<in> set pre. candidate_content L (take 200000 html) p = None"
    and "candidate_content L (take 200000 html) cand = Some c"
  shows "extract_preview_from_html L html base = Some (urljoin L base c)"
  using try_candidates_first [OF assms(2,3), of base post] assms(1)
  by (simp add: extract_preview_from_html_def Let_def)

lemma preview_og_image:
  assumes "candidate_content L (take 200000 html) (cps ''property'', cps ''og:image:secure_url'') = None"
    and "candidate_content L (take 200000 html) (cps ''property'', cps ''og:image:url'') = None"
    and "candidate_content L (take 200000 html) (cps ''property'', cps ''og:image'') = Some c"
  shows "extract_preview_from_html L html base = Some (urljoin L base c)"
proof (rule preview_first_candidate)
  show "META_CANDIDATES =
      [(cps ''property'', cps ''og:image:secure_url''), (cps ''property'', cps ''og:image:url'')]
      @ (cps ''property'', cps ''og:image'')
      # [(cps ''name'', cps ''og:image''), (cps ''property'', cps ''twitter:image''),
         (cps ''name'', cps ''twitter:image''), (cps ''property'', cps ''twitter:image:src''),
         (cps ''name'', cps ''twitter:image:src''), (cps ''itemprop'', cps ''image''),
         (cps ''name'', cps ''thumbnail'')]"
    by (simp add: META_CANDIDATES_def)
  show "\<forall>p \<in> set [(cps ''property'', cps ''og:image:secure_url''),
        (cps ''property'', cps ''og:image:url'')].
      candidate_content L (take 200000 html) p = None"
    using assms(1,2) by simp
  show "candidate_content L (take 200000 html) (cps ''property'', cps ''og:image'') = Some c"
    by (rule assms(3))
qed

text \<open>
  Claim C9, as the code has it. The resolver looks only at the first 200,000 characters of the
  HTML text. It returns, joined onto the base URL, the content of the first candidate of the
  priority list whose first matching meta tag in that part has a non-empty content value,
  whatever tags the later candidates have and wherever they stand. So when in that part the
  \<open>og:image\<close> property yields a non-empty content and the two candidates before it yield none,
  the \<open>og:image\<close> value is returned, with a \<open>twitter:image\<close> tag before it or after it.
\<close>

theorem extract_preview_priority:
  "(META_CANDIDATES = pre @ cand # post
      \<and> (\<forall>p \<in> set pre. candidate_content L (take 200000 html) p = None)
      \<and> candidate_content L (take 200000 html) cand = Some c
      \<longrightarrow> extract_preview_from_html L html base = Some (urljoin L base c))
   \<and> (candidate_content L (take 200000 html) (cps ''property'', cps ''og:image:secure_url'') = None
      \<and> candidate_content L (take 200000 html) (cps ''property'', cps ''og:image:url'') = None
      \<and> candidate_content L (take 200000 html) (cps ''property'', cps ''og:image'') = Some c
      \<longrightarrow> extract_preview_from_html L html base = Some (urljoin L base c))"
  using preview_first_candidate [of pre cand post L html c base]
    preview_og_image [of L html c base]
  by blast

theorem extract_preview_priority_witness:
  "extract_preview_from_html plain_library (og_tag @ twitter_tag) [] = Some (cps ''o.png'')
   \<and> extract_preview_from_html plain_library (twitter_tag @ og_tag) [] = Some (cps ''o.png'')
   \<and> candidate_content plain_library (take 200000 (twitter_tag @ og_tag))
        (cps ''property'', cps ''og:image:secure_url'') = None
   \<and> candidate_content plain_library (take 200000 (twitter_tag @ og_tag))
        (cps ''property'', cps ''og:image:url'') = None
   \<and> candidate_content plain_library (take 200000 (twitter_tag @ og_tag))
        (cps ''property'', cps ''og:image'') = Some (cps ''o.png'')"
proof -
  have j: "urljoin plain_library [] (cps ''o.png'') = cps ''o.png''"
    by (simp add: plain_library_def)
  note a = extract_preview_priority [where L = plain_library and html = "og_tag @ twitter_tag"
      and c = "cps ''o.png''" and base = "[]" and pre = "[]"
      and cand = "(cps ''property'', cps ''og:image:secure_url'')"
      and post = "tl META_CANDIDATES", unfolded short_take]
  note b = extract_preview_priority [where L = plain_library and html = "twitter_tag @ og_tag"
      and c = "cps ''o.png''" and base = "[]" and pre = "[]"
      and cand = "(cps ''property'', cps ''og:image:secure_url'')"
      and post = "tl META_CANDIDATES", unfolded short_take]
  show ?thesis
    unfolding short_take
    using j og_then_twitter twitter_then_og a b by simp
qed

text \<open>
  The claim as written fails: a document with the \<open>twitter:image\<close> tag at its start and the
  \<open>og:image\<close> tag after 200,000 spaces contains both tags, and the resolver returns the
  \<open>twitter:image\<close> value; without the spaces it returns the \<open>og:image\<close> value.
\<close>

theorem extract_preview_priority_counterexample:
  "extract_preview_from_html plain_library (twitter_tag @ replicate 200000 32 @ og_tag) []
     = Some (cps ''t.png'')
   \<and> extract_preview_from_html plain_library (twitter_tag @ og_tag) [] = Some (cps ''o.png'')"
proof
  show "extract_preview_from_html plain_library (twitter_tag @ replicate 200000 32 @ og_tag) []
      = Some (cps ''t.png'')"
    by (rule padded_preview)
  have "extract_preview_from_html plain_library (twitter_tag @ og_tag) []
      = Some (urljoin plain_library [] (cps ''o.png''))"
    using twitter_then_og by (intro preview_og_image; unfold short_take) simp_all
  then show "extract_preview_from_html plain_library (twitter_tag @ og_tag) [] = Some (cps ''o.png'')"
    by (simp add: plain_library_def)
qed

end
